theory Spec2Isabelle
  imports Complex_Main "HOL-Library.Word"
begin

section \<open>Value types shared by the entities\<close>

text \<open>
  Times are \<open>uint32_t\<close> milliseconds as returned by \<open>System::now()\<close>; the model
  passes the current time as an argument \<open>now\<close>. Coordinates are C++ \<open>int\<close>, modelled
  as unbounded integers (signed overflow is undefined in C++ and does not occur for map
  coordinates).
\<close>

type_synonym uint32 = "32 word"

record rectangle =
  rect_x :: int
  rect_y :: int
  rect_width :: int
  rect_height :: int

definition add_xy :: "rectangle \<Rightarrow> int \<Rightarrow> int \<Rightarrow> rectangle" where
  "add_xy r dx dy = r\<lparr>rect_x := rect_x r + dx, rect_y := rect_y r + dy\<rparr>"

text \<open>
  Modelled from the spec: \<open>Rectangle::overlaps\<close> (lowlevel/Rectangle.h is not among the
  sources): two axis-aligned boxes overlap when their projections overlap on both axes.
\<close>

definition rect_overlaps :: "rectangle \<Rightarrow> rectangle \<Rightarrow> bool" where
  "rect_overlaps r other =
     (rect_x other < rect_x r + rect_width r \<and> rect_x r < rect_x other + rect_width other \<and>
      rect_y other < rect_y r + rect_height r \<and> rect_y r < rect_y other + rect_height other)"

datatype layer = LAYER_LOW | LAYER_INTERMEDIATE | LAYER_HIGH

datatype ground =
    GROUND_EMPTY
  | GROUND_TRAVERSABLE
  | GROUND_WALL
  | GROUND_LOW_WALL
  | GROUND_WALL_TOP_RIGHT
  | GROUND_WALL_TOP_LEFT
  | GROUND_WALL_BOTTOM_LEFT
  | GROUND_WALL_BOTTOM_RIGHT
  | GROUND_WALL_TOP_RIGHT_WATER
  | GROUND_WALL_TOP_LEFT_WATER
  | GROUND_WALL_BOTTOM_LEFT_WATER
  | GROUND_WALL_BOTTOM_RIGHT_WATER
  | GROUND_DEEP_WATER
  | GROUND_SHALLOW_WATER
  | GROUND_GRASS
  | GROUND_HOLE
  | GROUND_ICE
  | GROUND_LADDER
  | GROUND_PRICKLE
  | GROUND_LAVA

text \<open>
  Modelled from the spec: the table \<open>MapEntity::directions_to_xy_moves\<close> read by
  \<open>MapEntity::direction_to_xy_move\<close> (MapEntity.cpp is not among the sources): the unit
  displacement of each of the eight directions, counter-clockwise from east, with the y
  axis pointing down, in agreement with \<open>Hero::get_facing_point\<close>, where the four main
  directions are right, up, left and down in this order. A direction outside 0..7 reads
  outside the table, which the spec calls a contract violation; the model returns \<open>None\<close>
  there.
\<close>

definition direction_to_xy_move :: "int \<Rightarrow> (int \<times> int) option" where
  "direction_to_xy_move direction8 =
     (if direction8 = 0 then Some (1, 0)
      else if direction8 = 1 then Some (1, -1)
      else if direction8 = 2 then Some (0, -1)
      else if direction8 = 3 then Some (-1, -1)
      else if direction8 = 4 then Some (-1, 0)
      else if direction8 = 5 then Some (-1, 1)
      else if direction8 = 6 then Some (0, 1)
      else if direction8 = 7 then Some (1, 1)
      else None)"

text \<open>
  The integer part of a square root, by upward search: the largest \<open>k\<close> whose square
  does not exceed \<open>n\<close>. It stands for the C++ idiom \<open>(int) std::sqrt(v)\<close> on a
  non-negative integer \<open>v\<close>.
\<close>

function sqrt_up :: "nat \<Rightarrow> nat \<Rightarrow> nat" where
  "sqrt_up n k = (if (k + 1) * (k + 1) \<le> n then sqrt_up n (k + 1) else k)"
  by pat_completeness auto
termination
proof (relation "measure (\<lambda>(n, k). n - k)")
  fix n k :: nat
  assume "(k + 1) * (k + 1) \<le> n"
  moreover have "k + 1 \<le> (k + 1) * (k + 1)" by simp
  ultimately have "k < n" by linarith
  then show "((n, k + 1), (n, k)) \<in> measure (\<lambda>(n, k). n - k)" by simp
qed simp

declare sqrt_up.simps [simp del]

definition floor_sqrt :: "nat \<Rightarrow> nat" where
  "floor_sqrt n = sqrt_up n 0"

text \<open>C++ integer division truncates towards zero; dividing by zero is undefined.\<close>

definition cpp_div :: "int \<Rightarrow> int \<Rightarrow> int option" where
  "cpp_div a b =
     (if b = 0 then None
      else Some (if (a < 0) = (b < 0) then \<bar>a\<bar> div \<bar>b\<bar> else - (\<bar>a\<bar> div \<bar>b\<bar>)))"

section \<open>MapEntity: the part of the base class the two components use\<close>

text \<open>
  Modelled from the spec: the fields and accessors of \<open>MapEntity\<close> (MapEntity.cpp is not
  among the sources). An entity has a bounding box and an origin point inside it;
  \<open>get_x\<close>/\<open>get_y\<close> are the coordinates of the origin point on the map,
  \<open>set_xy\<close> moves the box so that the origin point lands on the given coordinates,
  and \<open>get_distance\<close> is the Euclidean distance from the origin point, truncated to
  \<open>int\<close>. Suspension is a flag plus the time at which it was set.
\<close>

record map_entity =
  bounding_box :: rectangle
  origin :: "int \<times> int"
  layer :: layer
  enabled :: bool
  being_removed :: bool
  suspended :: bool
  when_suspended :: uint32
  ground_below :: ground
  on_map :: bool

definition get_x :: "'e map_entity_scheme \<Rightarrow> int" where
  "get_x e = rect_x (bounding_box e) + fst (origin e)"

definition get_y :: "'e map_entity_scheme \<Rightarrow> int" where
  "get_y e = rect_y (bounding_box e) + snd (origin e)"

definition set_xy :: "'e map_entity_scheme \<Rightarrow> int \<Rightarrow> int \<Rightarrow> 'e map_entity_scheme" where
  "set_xy e x y =
     e\<lparr>bounding_box := (bounding_box e)\<lparr>rect_x := x - fst (origin e), rect_y := y - snd (origin e)\<rparr>\<rparr>"

definition get_distance :: "'e map_entity_scheme \<Rightarrow> int \<Rightarrow> int \<Rightarrow> int" where
  "get_distance e x y = int (floor_sqrt (nat ((x - get_x e) * (x - get_x e) + (y - get_y e) * (y - get_y e))))"

definition MapEntity_set_suspended :: "uint32 \<Rightarrow> bool \<Rightarrow> 'e map_entity_scheme \<Rightarrow> 'e map_entity_scheme" where
  "MapEntity_set_suspended now s e =
     (if s then e\<lparr>suspended := True, when_suspended := now\<rparr> else e\<lparr>suspended := False\<rparr>)"

section \<open>StreamAction (entities/StreamAction.cpp)\<close>

text \<open>
  A stream is itself a map entity with a direction, a speed and the flag that tells
  whether the entity may move freely while on it.
\<close>

record stream = map_entity +
  direction :: int
  speed :: int
  allow_movement :: bool

text \<open>
  What the action calls on its collaborators: the map's collision query, and two virtual
  methods of the moved entity whose overriding bodies belong to the entity's class.
\<close>

record 'e world =
  test_collision_with_obstacles :: "layer \<Rightarrow> rectangle \<Rightarrow> 'e map_entity_scheme \<Rightarrow> bool"
  notify_position_changed :: "'e map_entity_scheme \<Rightarrow> 'e map_entity_scheme"
  get_ground_point :: "'e map_entity_scheme \<Rightarrow> rectangle"

text \<open>
  The action holds counted pointers to the stream and to the entity; \<open>None\<close> is the null
  pointer the code stores after it releases an object that is being removed. The pointees
  belong to the map: a change made to them between two updates is, in the model, a change
  of these two fields from outside.
\<close>

record 'e stream_action =
  stream :: "stream option"
  entity_moved :: "'e map_entity_scheme option"
  active :: bool
  sa_suspended :: bool
  sa_when_suspended :: uint32
  dx :: int
  dy :: int
  target_x :: int
  target_y :: int
  next_move_date :: uint32
  delay :: uint32

text \<open>
  \<open>(uint32_t) (delay * std::sqrt(2))\<close>: the product is computed in double precision and
  truncated. For the delays a positive speed can give (at most 1000) the rounding error of
  the product is far smaller than the distance of \<open>delay * sqrt 2\<close> from the nearest
  integer, so the result is the exact integer part, \<open>floor_sqrt (2 * delay\<^sup>2)\<close>. A
  product that does not fit 32 bits makes the conversion undefined (\<open>None\<close>).
\<close>

definition diagonal_delay :: "uint32 \<Rightarrow> uint32 option" where
  "diagonal_delay d =
     (let v = floor_sqrt (2 * unat d * unat d)
      in if v < 2 ^ 32 then Some (of_nat v) else None)"

definition StreamAction_new ::
  "uint32 \<Rightarrow> stream \<Rightarrow> 'e map_entity_scheme \<Rightarrow> 'e stream_action option" where
  "StreamAction_new now s e =
     (case direction_to_xy_move (direction s) of
        None \<Rightarrow> None
      | Some (mx, my) \<Rightarrow>
          (case cpp_div 1000 (speed s) of
             None \<Rightarrow> None
           | Some q \<Rightarrow>
               (let a = \<lparr>stream = Some s, entity_moved = Some e, active = True,
                         sa_suspended = False, sa_when_suspended = 0,
                         dx = mx, dy = my, target_x = 0, target_y = 0,
                         next_move_date = 0, delay = of_int q\<rparr>
                in if direction s mod 2 = 0 then
                     (let a1 =
                        (if dx a \<noteq> 0
                         then a\<lparr>target_x := get_x s + (if dx a > 0 then 16 else -16),
                                target_y := get_y e\<rparr>
                         else a\<lparr>target_y := get_y s + (if dy a > 0 then 16 else -16),
                                target_x := get_x e\<rparr>)
                      in Some (a1\<lparr>next_move_date := now + delay a1\<rparr>))
                   else
                     (let a1 = a\<lparr>target_x := get_x e + (if dx a > 0 then 16 else -16),
                                 target_y := get_y e + (if dy a > 0 then 16 else -16)\<rparr>
                      in case diagonal_delay (delay a1) of
                           None \<Rightarrow> None
                         | Some d \<Rightarrow>
                             (let a2 = a1\<lparr>delay := d\<rparr>
                              in Some (a2\<lparr>next_move_date := now + delay a2\<rparr>))))))"

definition is_active :: "'e stream_action \<Rightarrow> bool" where
  "is_active a = active a"

definition is_suspended :: "'e stream_action \<Rightarrow> bool" where
  "is_suspended a = sa_suspended a"

definition has_reached_target :: "'e stream_action \<Rightarrow> 'e map_entity_scheme \<Rightarrow> bool" where
  "has_reached_target a e =
     (let finished_x = (dx a = 0 \<or> (dx a > 0 \<and> get_x e \<ge> target_x a) \<or> (dx a < 0 \<and> get_x e \<le> target_x a));
          finished_y = (dy a = 0 \<or> (dy a > 0 \<and> get_y e \<ge> target_y a) \<or> (dy a < 0 \<and> get_y e \<le> target_y a))
      in finished_x \<and> finished_y)"

definition test_obstacles :: "'e world \<Rightarrow> 'e stream_action \<Rightarrow> 'e map_entity_scheme \<Rightarrow> bool" where
  "test_obstacles w a e =
     test_collision_with_obstacles w (layer e) (add_xy (bounding_box e) (dx a) (dy a)) e"

text \<open>
  The \<open>while\<close> loop of \<open>update\<close>. The position-changed notification is code of the
  moved entity and may do anything to it, so the loop is not total in general: not
  returning is the value \<open>None\<close>, as is the dereference of a null pointer.
\<close>

partial_function (option) update_loop ::
  "'e world \<Rightarrow> uint32 \<Rightarrow> 'e stream_action \<Rightarrow> 'e stream_action option" where
  "update_loop w now a =
     (if next_move_date a \<le> now \<and> is_active a then
        (let a1 = a\<lparr>next_move_date := next_move_date a + delay a\<rparr>
         in (case stream a1 of
              None \<Rightarrow> None
            | Some s \<Rightarrow>
                (case entity_moved a1 of
                   None \<Rightarrow> None
                 | Some e \<Rightarrow>
                     (if test_obstacles w a1 e then
                        Some (if \<not> allow_movement s then a1\<lparr>active := False\<rparr> else a1)
                      else
                        (let e1 = notify_position_changed w (set_xy e (get_x e + dx a1) (get_y e + dy a1));
                             a2 = a1\<lparr>entity_moved := Some e1\<rparr>
                         in update_loop w now
                              (if has_reached_target a2 e1 then a2\<lparr>active := False\<rparr> else a2))))))
      else Some a)"

definition StreamAction_update ::
  "'e world \<Rightarrow> uint32 \<Rightarrow> 'e stream_action \<Rightarrow> 'e stream_action option" where
  "StreamAction_update w now a =
     (if \<not> is_active a then Some a
      else (case stream a of
        None \<Rightarrow> None
      | Some s \<Rightarrow>
          (if being_removed s then Some (a\<lparr>stream := None, active := False\<rparr>)
           else if \<not> enabled s then Some (a\<lparr>active := False\<rparr>)
           else (case entity_moved a of
             None \<Rightarrow> None
           | Some e \<Rightarrow>
               (if being_removed e then Some (a\<lparr>entity_moved := None, active := False\<rparr>)
                else if \<not> enabled e then Some (a\<lparr>active := False\<rparr>)
                else if allow_movement s \<and> \<not> rect_overlaps (bounding_box s) (get_ground_point w e)
                        \<and> get_distance e (target_x a) (target_y a) > 8
                     then Some (a\<lparr>active := False\<rparr>)
                else if is_suspended a then Some a
                else update_loop w now a)))))"

definition StreamAction_set_suspended ::
  "uint32 \<Rightarrow> bool \<Rightarrow> 'e stream_action \<Rightarrow> 'e stream_action" where
  "StreamAction_set_suspended now s a =
     (let a1 = a\<lparr>sa_suspended := s\<rparr>
      in if s then a1\<lparr>sa_when_suspended := now\<rparr>
         else if sa_when_suspended a1 \<noteq> 0
              then a1\<lparr>next_move_date := next_move_date a1 + (now - sa_when_suspended a1)\<rparr>
              else a1)"

text \<open>
  Two notions used to show that \<open>update\<close> returns: the distance still to cover on one
  axis, which is zero exactly when \<open>has_reached_target\<close> calls the axis finished, and the
  fact that an active action has both its pointers.
\<close>

definition remaining :: "int \<Rightarrow> int \<Rightarrow> int \<Rightarrow> nat" where
  "remaining d target pos =
     (if d = 0 then 0 else if 0 < d then nat (target - pos) else nat (pos - target))"

definition pointers_ok :: "'e stream_action \<Rightarrow> bool" where
  "pointers_ok a = (is_active a \<longrightarrow> stream a \<noteq> None \<and> entity_moved a \<noteq> None)"

text \<open>
  The operations that can reach a stream action once it is built: its two mutating
  methods, and a change of the shared pointees made by their owner, the map.
\<close>

datatype 'e stream_action_op =
    Op_update "'e world" uint32
  | Op_set_suspended uint32 bool
  | Op_outside "stream \<Rightarrow> stream" "'e map_entity_scheme \<Rightarrow> 'e map_entity_scheme"

fun apply_op :: "'e stream_action_op \<Rightarrow> 'e stream_action \<Rightarrow> 'e stream_action option" where
  "apply_op (Op_update w now) a = StreamAction_update w now a"
| "apply_op (Op_set_suspended now s) a = Some (StreamAction_set_suspended now s a)"
| "apply_op (Op_outside f g) a =
     Some (a\<lparr>stream := map_option f (stream a), entity_moved := map_option g (entity_moved a)\<rparr>)"

fun apply_ops :: "'e stream_action_op list \<Rightarrow> 'e stream_action \<Rightarrow> 'e stream_action option" where
  "apply_ops [] a = Some a"
| "apply_ops (x # xs) a = (case apply_op x a of None \<Rightarrow> None | Some a' \<Rightarrow> apply_ops xs a')"

text \<open>Sample data: a 16x16 entity with the hero's origin point, and a stream of speed 64.\<close>

definition sample_box :: "int \<Rightarrow> int \<Rightarrow> rectangle" where
  "sample_box x y = \<lparr>rect_x = x, rect_y = y, rect_width = 16, rect_height = 16\<rparr>"

definition sample_entity :: "int \<Rightarrow> int \<Rightarrow> map_entity" where
  "sample_entity x y =
     \<lparr>bounding_box = sample_box x y, origin = (8, 13), layer = LAYER_LOW, enabled = True,
      being_removed = False, suspended = False, when_suspended = 0,
      ground_below = GROUND_TRAVERSABLE, on_map = True\<rparr>"

definition sample_stream :: "int \<Rightarrow> int \<Rightarrow> bool \<Rightarrow> stream" where
  "sample_stream d v free =
     \<lparr>bounding_box = sample_box 0 0, origin = (8, 13), layer = LAYER_LOW, enabled = True,
      being_removed = False, suspended = False, when_suspended = 0,
      ground_below = GROUND_TRAVERSABLE, on_map = True,
      direction = d, speed = v, allow_movement = free\<rparr>"

definition sample_world :: "(layer \<Rightarrow> rectangle \<Rightarrow> map_entity \<Rightarrow> bool) \<Rightarrow> unit world" where
  "sample_world obstacle =
     \<lparr>test_collision_with_obstacles = obstacle,
      notify_position_changed = (\<lambda>e. e),
      get_ground_point = (\<lambda>e. \<lparr>rect_x = get_x e, rect_y = get_y e, rect_width = 1, rect_height = 1\<rparr>)\<rparr>"

definition sample_stopped :: "unit stream_action" where
  "sample_stopped =
     \<lparr>stream = Some (sample_stream 0 64 False), entity_moved = Some (sample_entity 0 0),
      active = False, sa_suspended = False, sa_when_suspended = 0, dx = 1, dy = 0,
      target_x = 24, target_y = 13, next_move_date = 15, delay = 15\<rparr>"

section \<open>Hero: ground effects and position checks (entities/Hero.cpp)\<close>

text \<open>
  The active \<open>State\<close> object, as far as these functions look at it: the answers of the
  capability queries they call. The state classes themselves are not among the sources.
\<close>

record hero_state =
  state_name :: string
  can_avoid_hole :: bool
  can_avoid_ice :: bool
  is_touching_ground :: bool
  are_collisions_ignored :: bool
  can_come_from_bad_ground :: bool
  is_free :: bool
  wanted_movement_direction8 :: int

datatype state_class =
  FreeState | FallingState | PlungingState | SwimmingState | BackToSolidGroundState

text \<open>
  \<open>movement\<close> is the speed of the attached movement (\<open>None\<close>: no movement attached),
  a C++ \<open>double\<close> taken as a real number.
\<close>

record hero = map_entity +
  state :: hero_state
  normal_walking_speed :: int
  walking_speed :: int
  next_ground_date :: uint32
  next_ice_date :: uint32
  ice_movement_direction8 :: int
  ground_dxy :: "int \<times> int"
  last_solid_ground_coords :: "int \<times> int"
  last_solid_ground_layer :: layer
  movement :: "real option"
  movement_notifications_enabled :: bool

text \<open>
  The collaborators of the hero whose code is outside Hero.cpp, as parameters: the two
  queries of the map; \<open>Hero::set_state\<close> called with a new state of a given class, whose pointer-level behaviour
  is the subject of the section on state transitions and whose net effect on the hero is
  taken as given here; the methods of \<open>MapEntity\<close> and \<open>MapEntities\<close> that call back
  into the hero; the notifications sent to the active state and to the script.
  Sprites, sounds and the on-screen key icons carry no field of the model and are left
  out.
\<close>

record hero_env =
  map_test_collision_with_obstacles :: "layer \<Rightarrow> rectangle \<Rightarrow> hero \<Rightarrow> bool"
  map_get_ground :: "layer \<Rightarrow> int \<Rightarrow> int \<Rightarrow> ground"
  set_state :: "state_class \<Rightarrow> hero \<Rightarrow> hero"
  check_collision_with_detectors :: "bool \<Rightarrow> hero \<Rightarrow> hero"
  update_ground_below :: "hero \<Rightarrow> hero"
  set_entity_layer :: "layer \<Rightarrow> hero \<Rightarrow> hero"
  state_notify_position_changed :: "hero \<Rightarrow> hero"
  state_notify_walking_speed_changed :: "hero \<Rightarrow> hero"
  state_set_suspended :: "bool \<Rightarrow> hero \<Rightarrow> hero"
  entity_on_position_changed :: "hero \<Rightarrow> hero"

text \<open>The C++ remainder has the sign of the dividend.\<close>

definition cpp_mod :: "int \<Rightarrow> int \<Rightarrow> int" where
  "cpp_mod a b = (if a < 0 then - (\<bar>a\<bar> mod \<bar>b\<bar>) else a mod \<bar>b\<bar>)"

text \<open>
  \<open>(int) (20000 / speed)\<close> on doubles: the quotient truncated towards zero; undefined
  when the speed is zero or the quotient does not fit an \<open>int\<close>.
\<close>

definition ground_sound_delay :: "real \<Rightarrow> int option" where
  "ground_sound_delay v =
     (if v = 0 then None
      else (let q = 20000 / v;
                t = (if 0 \<le> q then \<lfloor>q\<rfloor> else \<lceil>q\<rceil>)
            in if - (2 ^ 31) \<le> t \<and> t < 2 ^ 31 then Some t else None))"

definition layer_below :: "layer \<Rightarrow> layer" where
  "layer_below l = (case l of LAYER_HIGH \<Rightarrow> LAYER_INTERMEDIATE | _ \<Rightarrow> LAYER_LOW)"

definition Hero_set_walking_speed :: "hero_env \<Rightarrow> int \<Rightarrow> hero \<Rightarrow> hero" where
  "Hero_set_walking_speed env v h =
     (if v \<noteq> walking_speed h
      then state_notify_walking_speed_changed env (h\<lparr>walking_speed := v\<rparr>)
      else h)"

definition Hero_is_ground_visible :: "hero \<Rightarrow> bool" where
  "Hero_is_ground_visible h =
     ((ground_below h = GROUND_GRASS \<or> ground_below h = GROUND_SHALLOW_WATER)
      \<and> is_touching_ground (state h))"

text \<open>
  \<open>check_position\<close>. The reset of the facing entity and the landing sound touch no field
  of the model; the top-left corner of the hero is the corner of its bounding box.
\<close>

definition Hero_check_position :: "hero_env \<Rightarrow> hero \<Rightarrow> hero" where
  "Hero_check_position env h =
     (if \<not> on_map h then h
      else if are_collisions_ignored (state h) then h
      else
        (let h1 = check_collision_with_detectors env True h
         in if suspended h1 then h1
            else
              (let h2 = update_ground_below env h1;
                   ground = ground_below h2;
                   h3 = (if ground \<noteq> GROUND_DEEP_WATER
                            \<and> ground \<noteq> GROUND_HOLE
                            \<and> ground \<noteq> GROUND_LAVA
                            \<and> ground \<noteq> GROUND_PRICKLE
                            \<and> ground \<noteq> GROUND_EMPTY
                            \<and> can_come_from_bad_ground (state h2)
                            \<and> (get_x h2 \<noteq> fst (last_solid_ground_coords h2)
                                 \<or> get_y h2 \<noteq> snd (last_solid_ground_coords h2))
                         then h2\<lparr>last_solid_ground_coords := (get_x h2, get_y h2),
                                 last_solid_ground_layer := layer h2\<rparr>
                         else h2)
               in if ground = GROUND_EMPTY \<and> is_touching_ground (state h3) then
                    (let x = rect_x (bounding_box h3);
                         y = rect_y (bounding_box h3);
                         l = layer h3
                     in if l \<noteq> LAYER_LOW
                           \<and> map_get_ground env l x y = GROUND_EMPTY
                           \<and> map_get_ground env l (x + 15) y = GROUND_EMPTY
                           \<and> map_get_ground env l x (y + 15) = GROUND_EMPTY
                           \<and> map_get_ground env l (x + 15) (y + 15) = GROUND_EMPTY
                        then set_entity_layer env (layer_below l) h3
                        else h3)
                  else h3)))"

definition Hero_notify_position_changed :: "hero_env \<Rightarrow> hero \<Rightarrow> hero" where
  "Hero_notify_position_changed env h =
     (let h1 = Hero_check_position env h;
          h2 = state_notify_position_changed env h1
      in if movement_notifications_enabled h2 then entity_on_position_changed env h2 else h2)"

text \<open>
  \<open>apply_additional_ground_movement\<close>, with the local flag \<open>moved\<close> threaded as in the
  source: the full displacement, then its x component alone, then its y component alone.
\<close>

definition Hero_apply_additional_ground_movement :: "hero_env \<Rightarrow> hero \<Rightarrow> hero" where
  "Hero_apply_additional_ground_movement env h =
     (if fst (ground_dxy h) = 0 \<and> snd (ground_dxy h) = 0 then h
      else
        (let box0 = add_xy (bounding_box h) (fst (ground_dxy h)) (snd (ground_dxy h));
             (h1, moved1) =
               (if \<not> map_test_collision_with_obstacles env (layer h) box0 h
                then (Hero_notify_position_changed env (h\<lparr>bounding_box := box0\<rparr>), True)
                else (h, False));
             (h2, moved2) =
               (if \<not> moved1 \<and> fst (ground_dxy h1) \<noteq> 0 then
                  (let box1 = add_xy (bounding_box h1) (fst (ground_dxy h1)) 0
                   in if \<not> map_test_collision_with_obstacles env (layer h1) box1 h1
                      then (Hero_notify_position_changed env (h1\<lparr>bounding_box := box1\<rparr>), True)
                      else (h1, moved1))
                else (h1, moved1));
             (h3, moved3) =
               (if \<not> moved2 \<and> snd (ground_dxy h2) \<noteq> 0 then
                  (let box2 = add_xy (bounding_box h2) 0 (snd (ground_dxy h2))
                   in if \<not> map_test_collision_with_obstacles env (layer h2) box2 h2
                      then (Hero_notify_position_changed env (h2\<lparr>bounding_box := box2\<rparr>), True)
                      else (h2, moved2))
                else (h2, moved2))
         in if \<not> moved3 then
              (if ground_below h3 = GROUND_HOLE
               then set_state env FallingState
                      (Hero_set_walking_speed env (normal_walking_speed h3) h3)
               else h3)
            else h3))"

definition Hero_update_ice :: "uint32 \<Rightarrow> hero \<Rightarrow> hero option" where
  "Hero_update_ice now h =
     (let wanted = wanted_movement_direction8 (state h)
      in if wanted = -1 then
           (if ice_movement_direction8 h = -1
            then Some (h\<lparr>ground_dxy := (0, 0), next_ice_date := now + 1000\<rparr>)
            else (case direction_to_xy_move (ice_movement_direction8 h) of
                    None \<Rightarrow> None
                  | Some d \<Rightarrow> Some (h\<lparr>ground_dxy := d, next_ice_date := now + 300\<rparr>)))
         else
           (if ice_movement_direction8 h = -1 then
              (case direction_to_xy_move (cpp_mod (wanted + 4) 8) of
                 None \<Rightarrow> None
               | Some d \<Rightarrow> Some (h\<lparr>ground_dxy := d\<rparr>))
            else if ice_movement_direction8 h \<noteq> wanted then
              (case direction_to_xy_move (ice_movement_direction8 h) of
                 None \<Rightarrow> None
               | Some d \<Rightarrow> Some (h\<lparr>ground_dxy := d, next_ice_date := now + 300\<rparr>))
            else
              (case direction_to_xy_move wanted of
                 None \<Rightarrow> None
               | Some d \<Rightarrow> Some (h\<lparr>ground_dxy := d, next_ice_date := now + 300\<rparr>))))"

definition Hero_start_ice :: "uint32 \<Rightarrow> hero \<Rightarrow> hero option" where
  "Hero_start_ice now h =
     (let h1 = h\<lparr>next_ground_date := now, next_ice_date := now,
                  ice_movement_direction8 := wanted_movement_direction8 (state h)\<rparr>
      in if ice_movement_direction8 h1 = -1 then Some (h1\<lparr>ground_dxy := (0, 0)\<rparr>)
         else (case direction_to_xy_move (ice_movement_direction8 h1) of
                 None \<Rightarrow> None
               | Some d \<Rightarrow> Some (h1\<lparr>ground_dxy := d\<rparr>)))"

text \<open>
  \<open>update_ground_effects\<close>. The ground sound played in the first branch touches no field
  of the model. \<open>None\<close> is undefined behaviour: a conversion of the sound delay that
  overflows, or a direction outside the table in \<open>update_ice\<close>.
\<close>

definition Hero_update_ground_effects :: "hero_env \<Rightarrow> uint32 \<Rightarrow> hero \<Rightarrow> hero option" where
  "Hero_update_ground_effects env now h =
     (if next_ground_date h \<le> now then
        (if Hero_is_ground_visible h \<and> movement h \<noteq> None then
           (case movement h of
              None \<Rightarrow> None
            | Some v \<Rightarrow>
                (case ground_sound_delay v of
                   None \<Rightarrow> None
                 | Some d \<Rightarrow> Some (h\<lparr>next_ground_date := now + of_int (max 150 d)\<rparr>)))
         else
           (let ground = ground_below h
            in if ground = GROUND_HOLE \<and> \<not> can_avoid_hole (state h) then
                 (let h1 = h\<lparr>next_ground_date := now + 60\<rparr>
                  in if get_distance h1 (fst (last_solid_ground_coords h1))
                          (snd (last_solid_ground_coords h1)) \<ge> 8
                     then Some (set_state env FallingState
                                  (Hero_set_walking_speed env (normal_walking_speed h1) h1))
                     else Some (Hero_apply_additional_ground_movement env h1))
               else if ground = GROUND_ICE then
                 (let h1 = (if \<not> can_avoid_ice (state h)
                            then Hero_apply_additional_ground_movement env h else h);
                      h2 = h1\<lparr>next_ground_date := now + 20\<rparr>
                  in if next_ice_date h2 \<le> now then
                       (case Hero_update_ice now h2 of
                          None \<Rightarrow> None
                        | Some h3 \<Rightarrow>
                            Some (h3\<lparr>ice_movement_direction8 :=
                                        wanted_movement_direction8 (state h3)\<rparr>))
                     else Some h2)
               else Some h))
      else Some h)"

definition Hero_set_suspended :: "hero_env \<Rightarrow> uint32 \<Rightarrow> bool \<Rightarrow> hero \<Rightarrow> hero" where
  "Hero_set_suspended env now s h =
     (let h1 = MapEntity_set_suspended now s h;
          h2 = (if \<not> s
                then h1\<lparr>next_ground_date := next_ground_date h1 + (now - when_suspended h1)\<rparr>
                else h1)
      in state_set_suspended env s h2)"

text \<open>
  Sample data for the hero: the answers of a few state classes, an environment whose
  callbacks do nothing and whose \<open>set_state\<close> installs the sample state of the class, and
  a hero standing at a given point on a given ground.
\<close>

definition sample_state :: "state_class \<Rightarrow> hero_state" where
  "sample_state c =
     (case c of
        FreeState \<Rightarrow>
          \<lparr>state_name = ''free'', can_avoid_hole = False, can_avoid_ice = False,
           is_touching_ground = True, are_collisions_ignored = False,
           can_come_from_bad_ground = True, is_free = True, wanted_movement_direction8 = -1\<rparr>
      | FallingState \<Rightarrow>
          \<lparr>state_name = ''falling'', can_avoid_hole = True, can_avoid_ice = True,
           is_touching_ground = False, are_collisions_ignored = False,
           can_come_from_bad_ground = True, is_free = False, wanted_movement_direction8 = -1\<rparr>
      | PlungingState \<Rightarrow>
          \<lparr>state_name = ''plunging'', can_avoid_hole = False, can_avoid_ice = True,
           is_touching_ground = True, are_collisions_ignored = False,
           can_come_from_bad_ground = True, is_free = False, wanted_movement_direction8 = -1\<rparr>
      | SwimmingState \<Rightarrow>
          \<lparr>state_name = ''swimming'', can_avoid_hole = False, can_avoid_ice = False,
           is_touching_ground = True, are_collisions_ignored = False,
           can_come_from_bad_ground = True, is_free = False, wanted_movement_direction8 = -1\<rparr>
      | BackToSolidGroundState \<Rightarrow>
          \<lparr>state_name = ''back to solid ground'', can_avoid_hole = True, can_avoid_ice = True,
           is_touching_ground = False, are_collisions_ignored = True,
           can_come_from_bad_ground = False, is_free = False, wanted_movement_direction8 = -1\<rparr>)"

definition sample_env :: "(layer \<Rightarrow> rectangle \<Rightarrow> hero \<Rightarrow> bool) \<Rightarrow> hero_env" where
  "sample_env obstacle =
     \<lparr>map_test_collision_with_obstacles = obstacle,
      map_get_ground = (\<lambda>l x y. GROUND_TRAVERSABLE),
      set_state = (\<lambda>c h. h\<lparr>state := sample_state c\<rparr>),
      check_collision_with_detectors = (\<lambda>b h. h),
      update_ground_below = (\<lambda>h. h),
      set_entity_layer = (\<lambda>l h. h\<lparr>layer := l\<rparr>),
      state_notify_position_changed = (\<lambda>h. h),
      state_notify_walking_speed_changed = (\<lambda>h. h),
      state_set_suspended = (\<lambda>b h. h),
      entity_on_position_changed = (\<lambda>h. h)\<rparr>"

definition sample_hero :: "int \<Rightarrow> int \<Rightarrow> ground \<Rightarrow> hero" where
  "sample_hero x y g =
     \<lparr>bounding_box = sample_box (x - 8) (y - 13), origin = (8, 13), layer = LAYER_LOW,
      enabled = True, being_removed = False, suspended = False, when_suspended = 0,
      ground_below = g, on_map = True,
      state = sample_state FreeState, normal_walking_speed = 88, walking_speed = 88,
      next_ground_date = 0, next_ice_date = 0, ice_movement_direction8 = -1,
      ground_dxy = (0, 0), last_solid_ground_coords = (-1, -1),
      last_solid_ground_layer = LAYER_LOW, movement = None,
      movement_notifications_enabled = False\<rparr>"

definition hole_hero :: "int \<Rightarrow> hero" where
  "hole_hero x =
     (sample_hero x 100 GROUND_HOLE)
       \<lparr>last_solid_ground_coords := (100, 100), ground_dxy := (1, 0), walking_speed := 29,
        next_ground_date := 1000\<rparr>"

definition ice_hero :: "int \<Rightarrow> hero" where
  "ice_hero d =
     (sample_hero 100 100 GROUND_ICE)
       \<lparr>state := (sample_state FreeState)\<lparr>wanted_movement_direction8 := d\<rparr>,
        next_ground_date := 1000, next_ice_date := 1000\<rparr>"

text \<open>
  Two notions used to state the position check: a ground on which the hero's position is
  worth remembering, and a callback that leaves the remembered position alone.
\<close>

definition keeps_solid_ground_memory :: "(hero \<Rightarrow> hero) \<Rightarrow> bool" where
  "keeps_solid_ground_memory f =
     (\<forall>h. last_solid_ground_coords (f h) = last_solid_ground_coords h \<and>
          last_solid_ground_layer (f h) = last_solid_ground_layer h)"

definition safe_ground :: "ground \<Rightarrow> bool" where
  "safe_ground g = (g \<noteq> GROUND_DEEP_WATER \<and> g \<noteq> GROUND_HOLE \<and> g \<noteq> GROUND_LAVA
                     \<and> g \<noteq> GROUND_PRICKLE \<and> g \<noteq> GROUND_EMPTY)"

text \<open>
  Sample situations: a hero walking on plain ground whose state may or may not allow coming
  from bad ground, a hero pushed diagonally into a corner, and the blocking stream of speed 4
  whose path is obstructed 8 pixels ahead. Then the ground pipeline run at successive
  instants, as the game loop does; a hero sliding east on ice whose player has released the
  key, with the ground deadline at 1120 and the ice deadline at 1300, which is what
  \<open>start_ice\<close> at 1000 and the pipeline run every 20 ms up to 1100 leave; and the same hero
  after a pause from 1100 to 2100.
\<close>

definition walking_hero :: "bool \<Rightarrow> hero" where
  "walking_hero from_bad =
     (sample_hero 100 100 GROUND_TRAVERSABLE)
       \<lparr>state := (sample_state FreeState)\<lparr>can_come_from_bad_ground := from_bad\<rparr>,
        last_solid_ground_coords := (90, 100), last_solid_ground_layer := LAYER_INTERMEDIATE\<rparr>"

fun Hero_ground_effects_at :: "hero_env \<Rightarrow> uint32 list \<Rightarrow> hero \<Rightarrow> hero option" where
  "Hero_ground_effects_at env [] h = Some h"
| "Hero_ground_effects_at env (t # ts) h =
     (case Hero_update_ground_effects env t h of
        None \<Rightarrow> None
      | Some h' \<Rightarrow> Hero_ground_effects_at env ts h')"

definition sliding_hero :: hero where
  "sliding_hero =
     (sample_hero 100 100 GROUND_ICE)
       \<lparr>ice_movement_direction8 := 0, ground_dxy := (1, 0),
        next_ground_date := 1120, next_ice_date := 1300\<rparr>"

definition resumed_hero :: hero where
  "resumed_hero =
     Hero_set_suspended (sample_env (\<lambda>l r h. False)) 2100 False
       (Hero_set_suspended (sample_env (\<lambda>l r h. False)) 1100 True sliding_hero)"

definition cornered_hero :: hero where
  "cornered_hero = (sample_hero 100 100 GROUND_ICE)\<lparr>ground_dxy := (1, 1)\<rparr>"

definition blocked_world :: "unit world" where
  "blocked_world = sample_world (\<lambda>l r e. 8 < rect_x r)"

definition scenario_action :: "int \<Rightarrow> uint32 \<Rightarrow> unit stream_action" where
  "scenario_action x t =
     \<lparr>stream = Some (sample_stream 0 4 False), entity_moved = Some (sample_entity x 0),
      active = True, sa_suspended = False, sa_when_suspended = 0, dx = 1, dy = 0,
      target_x = 24, target_y = 13, next_move_date = t, delay = 250\<rparr>"

section \<open>Hero: state transitions (Hero::set_state, Hero::update_state, Hero::update)\<close>

text \<open>
  The hero holds its \<open>State\<close> objects through raw pointers. A state object is identified
  by its address; \<open>state_ptr\<close> is the field \<open>Hero::state\<close> (\<open>None\<close> is the null pointer it
  holds before the constructor's first \<open>set_state\<close>), \<open>old_states\<close> is the list of that
  name, which can hold a null pointer too, and \<open>allocated\<close> is the set of state objects
  that exist: made by \<open>new\<close> and not yet deleted.
\<close>

type_synonym state_id = nat

record hero_states =
  state_ptr :: "state_id option"
  old_states :: "state_id option list"
  allocated :: "state_id set"

text \<open>
  \<open>set_state\<close> calls into code of the state classes (\<open>stop\<close> of the old state, \<open>start\<close> of
  the new one) and into \<open>check_position\<close>, which through the detectors and the ground can
  start a state again. That code is not among the sources. What it can do to the three
  fields is call \<open>set_state\<close>, any number of times, each time with an object it has just
  made by \<open>new\<close>, as every call in Hero.cpp does: this is the relation \<open>callback\<close>. The
  relations carry the list of the states asked for, in the order in which the calls were
  entered. A call that does not return has no derivation.

  \<open>Hero_set_state\<close> follows the source: with a null state it goes straight to the second
  half; otherwise it calls \<open>stop\<close> and compares the state pointer with the one it read
  before: when they differ it calls itself again with the same argument, when they agree
  it goes on. The second half, \<open>start_new_state\<close>, appends the old pointer to
  \<open>old_states\<close>, stores the new one, calls \<open>start\<close>, and calls \<open>check_position\<close> if the state
  pointer is still the new one.
\<close>

inductive Hero_set_state :: "hero_states \<Rightarrow> state_id \<Rightarrow> state_id list \<Rightarrow> hero_states \<Rightarrow> bool"
  and start_new_state :: "hero_states \<Rightarrow> state_id option \<Rightarrow> state_id \<Rightarrow> state_id list \<Rightarrow> hero_states \<Rightarrow> bool"
  and callback :: "hero_states \<Rightarrow> state_id list \<Rightarrow> hero_states \<Rightarrow> bool"
where
  callback_returns:
    "callback h [] h"
| callback_calls:
    "\<lbrakk>s \<notin> allocated h;
      Hero_set_state (h\<lparr>allocated := insert s (allocated h)\<rparr>) s rs h1;
      callback h1 rs' h2\<rbrakk>
     \<Longrightarrow> callback h (rs @ rs') h2"
| first_state:
    "\<lbrakk>state_ptr h = None; start_new_state h None s rs h'\<rbrakk>
     \<Longrightarrow> Hero_set_state h s (s # rs) h'"
| old_state_stopped:
    "\<lbrakk>state_ptr h = Some old; callback h rs h1; state_ptr h1 = Some old;
      start_new_state h1 (Some old) s rs' h'\<rbrakk>
     \<Longrightarrow> Hero_set_state h s (s # rs @ rs') h'"
| new_state_forced:
    "\<lbrakk>state_ptr h = Some old; callback h rs h1; state_ptr h1 \<noteq> Some old;
      Hero_set_state h1 s rs' h'\<rbrakk>
     \<Longrightarrow> Hero_set_state h s (s # rs @ rs') h'"
| started_and_checked:
    "\<lbrakk>callback (h\<lparr>old_states := old_states h @ [old], state_ptr := Some s\<rparr>) rs h1;
      state_ptr h1 = Some s; callback h1 rs' h2\<rbrakk>
     \<Longrightarrow> start_new_state h old s (rs @ rs') h2"
| started_and_replaced:
    "\<lbrakk>callback (h\<lparr>old_states := old_states h @ [old], state_ptr := Some s\<rparr>) rs h1;
      state_ptr h1 \<noteq> Some s\<rbrakk>
     \<Longrightarrow> start_new_state h old s rs h1"

text \<open>
  The loop of \<open>update_state\<close> that deletes every pointer of \<open>old_states\<close>: deleting a null
  pointer does nothing, deleting an object that does not exist (any more) is undefined
  (\<open>None\<close>).
\<close>

fun delete_all :: "state_id option list \<Rightarrow> state_id set \<Rightarrow> state_id set option" where
  "delete_all [] A = Some A"
| "delete_all (None # ps) A = delete_all ps A"
| "delete_all (Some p # ps) A = (if p \<in> A then delete_all ps (A - {p}) else None)"

definition flush_old_states :: "hero_states \<Rightarrow> hero_states option" where
  "flush_old_states h =
     (case delete_all (old_states h) (allocated h) of
        None \<Rightarrow> None
      | Some A \<Rightarrow> Some (h\<lparr>old_states := [], allocated := A\<rparr>))"

text \<open>
  \<open>update_state\<close>: the \<open>update\<close> of the active state, a callback, then the deletions.
\<close>

definition Hero_update_state :: "hero_states \<Rightarrow> state_id list \<Rightarrow> hero_states option \<Rightarrow> bool" where
  "Hero_update_state h rs r = (\<exists>h1. callback h rs h1 \<and> r = flush_old_states h1)"

text \<open>
  \<open>Hero::update\<close>, one tick. Three stretches of code can ask for states: \<open>update_movement\<close>
  and the update of the sprites (the calls \<open>rs1\<close>), the \<open>update\<close> of the active state
  inside \<open>update_state\<close> (\<open>rs2\<close>), and, when the hero is not suspended, what runs after
  \<open>update_state\<close> has returned: \<open>update_ground_effects\<close>, whose hole branch makes a
  \<open>FallingState\<close>, the detectors and \<open>check_gameover\<close> (\<open>rs3\<close>). The deletions of
  \<open>update_state\<close> stand between the second and the third.
\<close>

definition Hero_update ::
  "hero_states \<Rightarrow> bool \<Rightarrow> state_id list \<Rightarrow> state_id list \<Rightarrow> state_id list \<Rightarrow> hero_states option \<Rightarrow> bool" where
  "Hero_update h is_susp rs1 rs2 rs3 r =
     (\<exists>h1 r2. callback h rs1 h1 \<and> Hero_update_state h1 rs2 r2 \<and>
        (case r2 of
           None \<Rightarrow> r = None
         | Some h2 \<Rightarrow>
             if is_susp then rs3 = [] \<and> r = Some h2
             else (\<exists>h3. callback h2 rs3 h3 \<and> r = Some h3)))"

text \<open>
  The state objects awaiting deletion, the invariant of the three fields, and what every
  terminated call leaves behind: a well-formed owner whose objects are those it had plus
  those asked for, and whose list of old states is the former one with pointers appended.
\<close>

definition retired :: "hero_states \<Rightarrow> state_id set" where
  "retired h = {p. Some p \<in> set (old_states h)}"

definition well_formed :: "hero_states \<Rightarrow> bool" where
  "well_formed h =
     (distinct (filter (\<lambda>p. p \<noteq> None) (old_states h)) \<and> retired h \<subseteq> allocated h \<and>
      set_option (state_ptr h) \<subseteq> allocated h - retired h)"


definition grows :: "hero_states \<Rightarrow> state_id list \<Rightarrow> hero_states \<Rightarrow> bool" where
  "grows h rs h' =
     (well_formed h' \<and> allocated h' = allocated h \<union> set rs \<and>
      (\<exists>ys. old_states h' = old_states h @ ys))"

definition owning :: "state_id option \<Rightarrow> state_id option list \<Rightarrow> state_id set \<Rightarrow> hero_states" where
  "owning p olds A = \<lparr>state_ptr = p, old_states = olds, allocated = A\<rparr>"

section \<open>Properties of the stream action\<close>

subsection \<open>The integer square root\<close>

lemma sqrt_up_lower: "k * k \<le> n \<Longrightarrow> sqrt_up n k * sqrt_up n k \<le> n"
proof (induction n k rule: sqrt_up.induct)
  case (1 n k)
  then show ?case by (simp add: sqrt_up.simps [of n k])
qed

lemma sqrt_up_upper: "n < Suc (sqrt_up n k) * Suc (sqrt_up n k)"
proof (induction n k rule: sqrt_up.induct)
  case (1 n k)
  then show ?case by (simp add: sqrt_up.simps [of n k] not_le)
qed

lemma floor_sqrt_lower: "floor_sqrt n * floor_sqrt n \<le> n"
  by (simp add: floor_sqrt_def sqrt_up_lower)

lemma floor_sqrt_upper: "n < Suc (floor_sqrt n) * Suc (floor_sqrt n)"
  by (simp only: floor_sqrt_def sqrt_up_upper)

lemma floor_sqrt_le: "floor_sqrt n \<le> n"
  using floor_sqrt_lower [of n] by (meson le_square le_trans)

lemma floor_sqrt_real: "int (floor_sqrt n) = \<lfloor>sqrt (real n)\<rfloor>"
proof -
  let ?r = "floor_sqrt n"
  have "real ?r * real ?r \<le> real n"
    using floor_sqrt_lower [of n] by (metis of_nat_le_iff of_nat_mult)
  then have lo: "real ?r \<le> sqrt (real n)"
    by (simp add: real_le_rsqrt power2_eq_square)
  have "real n < real (Suc ?r) * real (Suc ?r)"
    using floor_sqrt_upper [of n] by (metis of_nat_less_iff of_nat_mult)
  then have hi: "sqrt (real n) < real (Suc ?r)"
    by (simp add: real_less_lsqrt power2_eq_square)
  show ?thesis using lo hi by (intro floor_unique [symmetric]) auto
qed

lemma floor_sqrt_diag: "int (floor_sqrt (2 * d * d)) = \<lfloor>real d * sqrt 2\<rfloor>"
proof -
  have "sqrt (real (2 * d * d)) = real d * sqrt 2"
    by (simp add: real_sqrt_mult)
  then show ?thesis by (simp add: floor_sqrt_real)
qed

lemma floor_sqrt_ge_iff: "k \<le> floor_sqrt n \<longleftrightarrow> k * k \<le> n"
proof
  assume "k \<le> floor_sqrt n"
  then have "k * k \<le> floor_sqrt n * floor_sqrt n" by (simp add: mult_le_mono)
  then show "k * k \<le> n" using floor_sqrt_lower [of n] by linarith
next
  assume kk: "k * k \<le> n"
  show "k \<le> floor_sqrt n"
  proof (rule ccontr)
    assume "\<not> k \<le> floor_sqrt n"
    then have "Suc (floor_sqrt n) \<le> k" by simp
    then have "Suc (floor_sqrt n) * Suc (floor_sqrt n) \<le> k * k" by (intro mult_le_mono)
    then show False using kk floor_sqrt_upper [of n] by linarith
  qed
qed

subsection \<open>The per-step delay\<close>

lemma direction_to_xy_move_valid:
  assumes "0 \<le> d" and "d \<le> 7"
  shows "\<exists>m. direction_to_xy_move d = Some m"
proof -
  have "d = 0 \<or> d = 1 \<or> d = 2 \<or> d = 3 \<or> d = 4 \<or> d = 5 \<or> d = 6 \<or> d = 7"
    using assms by arith
  then show ?thesis by (auto simp: direction_to_xy_move_def)
qed

lemma cpp_div_pos: "0 < b \<Longrightarrow> 0 \<le> a \<Longrightarrow> cpp_div a b = Some (a div b)"
  by (simp add: cpp_div_def)

lemma unat_delay_quotient:
  assumes "0 < (S::int)"
  shows "unat (of_int (1000 div S) :: uint32) = nat (1000 div S)" and "nat (1000 div S) \<le> 1000"
proof -
  have q: "0 \<le> 1000 div S" "1000 div S \<le> 1000"
    using assms zdiv_mono2 [of 1000 1 S] by (simp_all add: pos_imp_zdiv_nonneg_iff)
  then show "nat (1000 div S) \<le> 1000" by simp
  have "uint (of_int (1000 div S) :: uint32) = 1000 div S"
    using q by (simp add: uint_word_of_int take_bit_int_eq_self)
  then show "unat (of_int (1000 div S) :: uint32) = nat (1000 div S)"
    by (simp add: unat_eq_nat_uint del: of_int_numeral)
qed

lemma diagonal_delay_quotient:
  assumes "0 < (S::int)"
  shows "diagonal_delay (of_int (1000 div S)) = Some (of_int \<lfloor>real_of_int (1000 div S) * sqrt 2\<rfloor>)"
proof -
  let ?d = "nat (1000 div S)"
  have d: "unat (of_int (1000 div S) :: uint32) = ?d" "?d \<le> 1000"
    using unat_delay_quotient [OF assms] by blast+
  have "floor_sqrt (2 * ?d * ?d) \<le> 2 * ?d * ?d" by (rule floor_sqrt_le)
  also have "\<dots> \<le> 2 * 1000 * 1000" using d(2) by (intro mult_le_mono) simp_all
  finally have small: "floor_sqrt (2 * ?d * ?d) < 2 ^ 32" by simp
  have nn: "0 \<le> 1000 div S" using assms by (simp add: pos_imp_zdiv_nonneg_iff)
  have "(of_nat (floor_sqrt (2 * ?d * ?d)) :: uint32) = of_int (int (floor_sqrt (2 * ?d * ?d)))"
    by simp
  also have "\<dots> = of_int \<lfloor>real ?d * sqrt 2\<rfloor>" by (simp only: floor_sqrt_diag)
  also have "real ?d = real_of_int (1000 div S)" using nn by simp
  finally show ?thesis using small by (simp add: diagonal_delay_def d(1) Let_def)
qed

lemma update_loop_delay:
  assumes "update_loop w now a = Some a'"
  shows "delay a' = delay a"
proof (rule update_loop.raw_induct [where P = "\<lambda>w now a a'. delay a' = delay a", OF _ assms], goal_cases)
  case (1 f w now a a')
  show ?case using 1(2)
    by (auto simp: Let_def dest!: 1(1) split: if_splits option.splits)
qed

lemma StreamAction_update_delay:
  "StreamAction_update w now a = Some a' \<Longrightarrow> delay a' = delay a"
  by (auto simp: StreamAction_update_def dest: update_loop_delay split: if_splits option.splits)

lemma StreamAction_set_suspended_delay:
  "delay (StreamAction_set_suspended now b a) = delay a"
  by (simp add: StreamAction_set_suspended_def Let_def)

text \<open>
  C4, as the code has it. For a stream of positive speed \<open>S\<close> and a direction in 0..7 the
  constructor succeeds, and the per-step delay it stores is the truncated quotient
  \<open>1000 div S\<close> when the direction is even, and the integer part of that truncated
  quotient times \<open>sqrt 2\<close> when the direction is odd; neither \<open>update\<close> nor
  \<open>set_suspended\<close> changes the delay afterwards.
\<close>

theorem stream_delay_truncated:
  assumes "0 < speed s" and "0 \<le> direction s" and "direction s \<le> 7"
  shows "(\<exists>a. StreamAction_new now s e = Some a \<and>
            delay a = (if direction s mod 2 = 0 then of_int (1000 div speed s)
                       else of_int \<lfloor>real_of_int (1000 div speed s) * sqrt 2\<rfloor>)) \<and>
         (\<forall>w t a a'. StreamAction_update w t a = Some a' \<longrightarrow> delay a' = delay a) \<and>
         (\<forall>t b a. delay (StreamAction_set_suspended t b a) = delay a)"
proof -
  obtain m where m: "direction_to_xy_move (direction s) = Some m"
    using direction_to_xy_move_valid assms(2,3) by blast
  have q: "cpp_div 1000 (speed s) = Some (1000 div speed s)"
    using assms(1) by (simp add: cpp_div_pos)
  have "\<exists>a. StreamAction_new now s e = Some a \<and>
            delay a = (if direction s mod 2 = 0 then of_int (1000 div speed s)
                       else of_int \<lfloor>real_of_int (1000 div speed s) * sqrt 2\<rfloor>)"
    by (cases m) (simp add: StreamAction_new_def m q Let_def diagonal_delay_quotient [OF assms(1)])
  then show ?thesis
    using StreamAction_update_delay StreamAction_set_suspended_delay by blast
qed

lemma floor_sqrt_450: "floor_sqrt 450 = 21"
  by (simp add: floor_sqrt_def sqrt_up.simps)

theorem stream_delay_truncated_witness:
  "0 < speed (sample_stream 1 64 False) \<and>
   (\<exists>a. StreamAction_new 0 (sample_stream 1 64 False) (sample_entity 0 0) = Some a \<and> delay a = 21)"
proof -
  have "\<lfloor>real 15 * sqrt 2\<rfloor> = 21"
    using floor_sqrt_diag [of 15] by (simp add: floor_sqrt_450)
  then have fl: "\<lfloor>15 * sqrt 2\<rfloor> = 21" by simp
  show ?thesis
    using stream_delay_truncated [of "sample_stream 1 64 False" 0 "sample_entity 0 0"]
    by (auto simp: sample_stream_def fl)
qed

text \<open>
  C4 as the spec words it fails: with speed 64 on a non-diagonal stream the stored delay
  is 15 ms, whereas \<open>round (1000 / 64)\<close> is 16.
\<close>

theorem stream_delay_round_counterexample:
  "map_option delay (StreamAction_new 0 (sample_stream 0 64 False) (sample_entity 0 0)) = Some 15 \<and>
   round (1000 / real_of_int (speed (sample_stream 0 64 False))) = (16::int) \<and>
   map_option delay (StreamAction_new 0 (sample_stream 0 64 False) (sample_entity 0 0))
     \<noteq> Some (of_int (round (1000 / real_of_int (speed (sample_stream 0 64 False)))))"
  by (simp add: StreamAction_new_def sample_stream_def sample_entity_def sample_box_def
      direction_to_xy_move_def cpp_div_def get_x_def get_y_def round_def)

subsection \<open>Inactivity is permanent\<close>

lemma StreamAction_new_active: "StreamAction_new now s e = Some a \<Longrightarrow> is_active a"
  by (auto simp: StreamAction_new_def is_active_def Let_def split: option.splits if_splits prod.splits)

lemma apply_op_inactive:
  "\<not> is_active a \<Longrightarrow> \<exists>a'. apply_op x a = Some a' \<and> \<not> is_active a'"
  by (cases x)
    (simp_all add: StreamAction_update_def StreamAction_set_suspended_def is_active_def Let_def)

lemma apply_ops_inactive:
  "\<not> is_active a \<Longrightarrow> \<exists>a'. apply_ops xs a = Some a' \<and> \<not> is_active a'"
proof (induction xs arbitrary: a)
  case Nil
  then show ?case by simp
next
  case (Cons x xs)
  from apply_op_inactive [OF Cons.prems, of x]
  obtain a1 where a1: "apply_op x a = Some a1" "\<not> is_active a1" by blast
  from Cons.IH [OF a1(2)] show ?case by (simp add: a1(1))
qed

text \<open>
  C10. The constructor is the only place that makes an action active. Once an action is
  inactive, \<open>update\<close> returns at once and hands back the very same action (no field
  changed, the entity it points to included), and after any sequence of updates,
  suspensions, resumptions and outside changes of the pointees the action exists and
  \<open>is_active\<close> is still false.
\<close>

theorem stream_action_inactive_forever:
  "(StreamAction_new t s e = Some b \<longrightarrow> is_active b) \<and>
   (\<not> is_active a \<longrightarrow>
      StreamAction_update w now a = Some a \<and>
      (\<exists>a'. apply_ops xs a = Some a' \<and> \<not> is_active a'))"
  using StreamAction_new_active [of t s e b] apply_ops_inactive [of a xs]
  by (simp add: StreamAction_update_def)

theorem stream_action_inactive_forever_witness:
  "\<not> is_active sample_stopped \<and>
   StreamAction_update (sample_world (\<lambda>l r e. False)) 100 sample_stopped = Some sample_stopped \<and>
   (\<exists>a'. apply_ops [Op_set_suspended 20 True, Op_set_suspended 50 False,
                     Op_update (sample_world (\<lambda>l r e. False)) 100] sample_stopped = Some a' \<and>
         \<not> is_active a')"
  using stream_action_inactive_forever [of 0 "sample_stream 0 64 False" "sample_entity 0 0" sample_stopped
      sample_stopped "sample_world (\<lambda>l r e. False)" 100
      "[Op_set_suspended 20 True, Op_set_suspended 50 False, Op_update (sample_world (\<lambda>l r e. False)) 100]"]
  by (simp add: is_active_def sample_stopped_def)

section \<open>Properties of the hero's ground effects\<close>

subsection \<open>The time gate of the pipeline\<close>

text \<open>
  C8. Run before its deadline \<open>next_ground_date\<close>, the ground-effect pipeline returns the
  hero unchanged: position, slide vector, walking speed, active state and deadlines all
  stay as they were. Hence a second run inside the interval that a first run re-armed
  changes nothing more.
\<close>

theorem ground_gate_closed:
  "(now < next_ground_date h \<longrightarrow> Hero_update_ground_effects env now h = Some h) \<and>
   (Hero_update_ground_effects env now h = Some h1 \<and> now' < next_ground_date h1
      \<longrightarrow> Hero_update_ground_effects env now' h1 = Some h1)"
  by (simp add: Hero_update_ground_effects_def not_le [symmetric])


theorem ground_gate_closed_witness:
  "(1000::uint32) < next_ground_date ((hole_hero 110)\<lparr>next_ground_date := 1060\<rparr>) \<and>
   Hero_update_ground_effects (sample_env (\<lambda>l r h. False)) 1000 ((hole_hero 110)\<lparr>next_ground_date := 1060\<rparr>)
     = Some ((hole_hero 110)\<lparr>next_ground_date := 1060\<rparr>) \<and>
   (\<exists>h1. Hero_update_ground_effects (sample_env (\<lambda>l r h. False)) 1000 (hole_hero 103) = Some h1 \<and>
         get_x h1 = 104 \<and> next_ground_date h1 = 1060 \<and>
         Hero_update_ground_effects (sample_env (\<lambda>l r h. False)) 1030 h1 = Some h1)"
proof -
  let ?env = "sample_env (\<lambda>l r h. False)"
  obtain h1 where h1: "Hero_update_ground_effects ?env 1000 (hole_hero 103) = Some h1"
    and x: "get_x h1 = 104" and d: "next_ground_date h1 = 1060"
    by (simp add: hole_hero_def sample_hero_def sample_box_def sample_env_def sample_state_def
      get_distance_def floor_sqrt_def sqrt_up.simps Hero_update_ground_effects_def Hero_is_ground_visible_def
      get_x_def get_y_def Hero_set_walking_speed_def Hero_apply_additional_ground_movement_def
      Hero_notify_position_changed_def Hero_check_position_def add_xy_def Let_def)
  have "(1030::uint32) < next_ground_date h1" by (simp add: d)
  with h1 have "Hero_update_ground_effects ?env 1030 h1 = Some h1"
    using ground_gate_closed [of 1000 "hole_hero 103" ?env h1 1030] by simp
  moreover have "(1000::uint32) < next_ground_date ((hole_hero 110)\<lparr>next_ground_date := 1060\<rparr>)"
    by simp
  moreover from this have "Hero_update_ground_effects ?env 1000 ((hole_hero 110)\<lparr>next_ground_date := 1060\<rparr>)
     = Some ((hole_hero 110)\<lparr>next_ground_date := 1060\<rparr>)"
    using ground_gate_closed [of 1000 "(hole_hero 110)\<lparr>next_ground_date := 1060\<rparr>" ?env] by blast
  ultimately show ?thesis using h1 x d by blast
qed

subsection \<open>Holes\<close>

lemma get_distance_ge_8:
  "8 \<le> get_distance e x y \<longleftrightarrow> 64 \<le> (x - get_x e) * (x - get_x e) + (y - get_y e) * (y - get_y e)"
proof -
  let ?n = "nat ((x - get_x e) * (x - get_x e) + (y - get_y e) * (y - get_y e))"
  have "8 \<le> get_distance e x y \<longleftrightarrow> 8 \<le> floor_sqrt ?n" by (simp add: get_distance_def)
  also have "\<dots> \<longleftrightarrow> 8 * 8 \<le> ?n" by (rule floor_sqrt_ge_iff)
  also have "\<dots> \<longleftrightarrow> 64 \<le> (x - get_x e) * (x - get_x e) + (y - get_y e) * (y - get_y e)" by auto
  finally show ?thesis .
qed

text \<open>
  C5, as the code has it. On a hole that the state does not avoid, each elapse of the gate
  re-arms it 60 ms later; then, if the truncated distance to the last solid ground is at
  least 8 (its square at least 64), the hero gets its normal walking speed back and
  \<open>set_state\<close> is called with a new \<open>FallingState\<close>; otherwise the displacement helper
  is applied.
\<close>

theorem hole_pull_or_fall:
  assumes "next_ground_date h \<le> now" and "ground_below h = GROUND_HOLE"
    and "\<not> can_avoid_hole (state h)"
  shows "Hero_update_ground_effects env now h =
           Some (if 64 \<le> (fst (last_solid_ground_coords h) - get_x h) * (fst (last_solid_ground_coords h) - get_x h)
                        + (snd (last_solid_ground_coords h) - get_y h) * (snd (last_solid_ground_coords h) - get_y h)
                 then set_state env FallingState
                        (Hero_set_walking_speed env (normal_walking_speed h) (h\<lparr>next_ground_date := now + 60\<rparr>))
                 else Hero_apply_additional_ground_movement env (h\<lparr>next_ground_date := now + 60\<rparr>))"
  using assms
  by (simp add: Hero_update_ground_effects_def Hero_is_ground_visible_def Let_def get_distance_ge_8
      get_x_def get_y_def)

theorem hole_pull_or_fall_witness:
  "Hero_update_ground_effects (sample_env (\<lambda>l r h. False)) 1000 (hole_hero 110) =
     Some ((hole_hero 110)\<lparr>next_ground_date := 1060, walking_speed := 88,
                            state := sample_state FallingState\<rparr>) \<and>
   map_option get_x (Hero_update_ground_effects (sample_env (\<lambda>l r h. False)) 1000 (hole_hero 103))
     = Some 104"
  using hole_pull_or_fall [of "hole_hero 110" 1000 "sample_env (\<lambda>l r h. False)"]
        hole_pull_or_fall [of "hole_hero 103" 1000 "sample_env (\<lambda>l r h. False)"]
  by (simp add: hole_hero_def sample_hero_def sample_box_def sample_env_def sample_state_def
      get_x_def get_y_def Hero_set_walking_speed_def Hero_apply_additional_ground_movement_def
      Hero_notify_position_changed_def Hero_check_position_def add_xy_def Let_def)

text \<open>
  C5 as the spec words it ("farther than 8 px") fails at a distance of exactly 8: the hero
  falls at once and is not pulled.
\<close>

lemma floor_sqrt_64: "floor_sqrt 64 = 8"
  by (simp add: floor_sqrt_def sqrt_up.simps)

theorem hole_threshold_counterexample:
  "get_distance (hole_hero 108) 100 100 = 8 \<and>
   \<not> 8 < get_distance (hole_hero 108) 100 100 \<and>
   map_option (\<lambda>r. (state_name (state r), get_x r, walking_speed r))
     (Hero_update_ground_effects (sample_env (\<lambda>l r h. False)) 1000 (hole_hero 108))
   = Some (''falling'', 108, 88)"
  by (simp add: hole_hero_def sample_hero_def sample_box_def sample_env_def sample_state_def
      get_distance_def get_x_def get_y_def floor_sqrt_64 Hero_update_ground_effects_def
      Hero_is_ground_visible_def Hero_set_walking_speed_def)

subsection \<open>Ice\<close>

lemma cpp_mod_nonneg: "0 \<le> a \<Longrightarrow> cpp_mod a 8 = a mod 8"
  by (simp add: cpp_mod_def)

lemma ice_reevaluation:
  assumes "- 1 \<le> wanted_movement_direction8 (state h)" and "wanted_movement_direction8 (state h) \<le> 7"
    and "- 1 \<le> ice_movement_direction8 h" and "ice_movement_direction8 h \<le> 7"
  shows "\<exists>h'. Hero_update_ice now h = Some h' \<and>
           h' = h\<lparr>ground_dxy := ground_dxy h', next_ice_date := next_ice_date h'\<rparr> \<and>
           Some (ground_dxy h') =
             (if wanted_movement_direction8 (state h) = - 1 then
                (if ice_movement_direction8 h = - 1 then Some (0, 0)
                 else direction_to_xy_move (ice_movement_direction8 h))
              else if ice_movement_direction8 h = - 1 then
                direction_to_xy_move ((wanted_movement_direction8 (state h) + 4) mod 8)
              else if ice_movement_direction8 h \<noteq> wanted_movement_direction8 (state h) then
                direction_to_xy_move (ice_movement_direction8 h)
              else direction_to_xy_move (wanted_movement_direction8 (state h))) \<and>
           next_ice_date h' =
             (if wanted_movement_direction8 (state h) = - 1 \<and> ice_movement_direction8 h = - 1
              then now + 1000
              else if wanted_movement_direction8 (state h) \<noteq> - 1 \<and> ice_movement_direction8 h = - 1
              then next_ice_date h
              else now + 300)"
proof -
  let ?w = "wanted_movement_direction8 (state h)" and ?i = "ice_movement_direction8 h"
  have i: "?i \<noteq> - 1 \<Longrightarrow> \<exists>m. direction_to_xy_move ?i = Some m"
    using assms(3,4) by (intro direction_to_xy_move_valid) auto
  have w: "?w \<noteq> - 1 \<Longrightarrow> \<exists>m. direction_to_xy_move ?w = Some m"
    using assms(1,2) by (intro direction_to_xy_move_valid) auto
  have o: "?w \<noteq> - 1 \<Longrightarrow> cpp_mod (?w + 4) 8 = (?w + 4) mod 8"
    using assms(1) by (intro cpp_mod_nonneg) auto
  have om: "\<exists>m. direction_to_xy_move ((?w + 4) mod 8) = Some m"
    by (intro direction_to_xy_move_valid) auto
  show ?thesis
    using i w o om by (auto simp: Hero_update_ice_def Let_def)
qed

lemma ice_from_rest:
  assumes "ice_movement_direction8 h = - 1" and "0 \<le> wanted_movement_direction8 (state h)"
    and "wanted_movement_direction8 (state h) \<le> 7"
    and "ground_below h = GROUND_ICE" and "ground_dxy h = (0, 0)"
    and "next_ground_date h \<le> now" and "next_ice_date h \<le> now"
  shows "\<exists>h1. Hero_update_ground_effects env now h = Some h1 \<and>
           Some (ground_dxy h1) = direction_to_xy_move ((wanted_movement_direction8 (state h) + 4) mod 8) \<and>
           ice_movement_direction8 h1 = wanted_movement_direction8 (state h) \<and>
           wanted_movement_direction8 (state h1) = wanted_movement_direction8 (state h) \<and>
           next_ground_date h1 = now + 20 \<and> next_ice_date h1 = next_ice_date h \<and>
           (\<forall>now'. \<exists>h2. Hero_update_ice now' h1 = Some h2 \<and>
                 Some (ground_dxy h2) = direction_to_xy_move (wanted_movement_direction8 (state h)) \<and>
                 next_ice_date h2 = now' + 300)"
proof -
  let ?w = "wanted_movement_direction8 (state h)"
  have o: "cpp_mod (?w + 4) 8 = (?w + 4) mod 8"
    using assms(2) by (intro cpp_mod_nonneg) auto
  have "(?w + 4) mod 8 \<le> 7" by presburger
  then obtain m where m: "direction_to_xy_move ((?w + 4) mod 8) = Some m"
    using direction_to_xy_move_valid [of "(?w + 4) mod 8"] by auto
  obtain k where k: "direction_to_xy_move ?w = Some k"
    using direction_to_xy_move_valid [of ?w] assms(2,3) by auto
  have w1: "?w \<noteq> - 1" using assms(2) by auto
  show ?thesis
    using assms w1
    by (simp add: Hero_update_ground_effects_def Hero_is_ground_visible_def
        Hero_apply_additional_ground_movement_def Hero_update_ice_def Let_def o m k)
qed

text \<open>
  C3. With \<open>wanted\<close> the direction the player asks for and \<open>ice_dir\<close> the last committed
  slide direction (both in -1..7), \<open>update_ice\<close> touches only the slide vector and the ice
  deadline: both -1 gives the zero vector and a deadline 1000 ms ahead; \<open>wanted = -1\<close>
  alone keeps sliding in \<open>ice_dir\<close> for 300 ms; \<open>ice_dir = -1\<close> alone slides opposite to
  \<open>wanted\<close> (and leaves the deadline); otherwise, two different directions keep
  \<open>ice_dir\<close> for 300 ms and two equal ones keep \<open>wanted\<close> for 300 ms. From rest, with a
  constant wanted direction, the first run of the pipeline on ice slides opposite to it and
  commits it as \<open>ice_dir\<close>; every re-evaluation after that slides in the wanted direction
  with a deadline 300 ms ahead.
\<close>

theorem ice_slide_law:
  "(- 1 \<le> wanted_movement_direction8 (state h) \<and> wanted_movement_direction8 (state h) \<le> 7 \<and>
    - 1 \<le> ice_movement_direction8 h \<and> ice_movement_direction8 h \<le> 7 \<longrightarrow>
      (\<exists>h'. Hero_update_ice now h = Some h' \<and>
           h' = h\<lparr>ground_dxy := ground_dxy h', next_ice_date := next_ice_date h'\<rparr> \<and>
           Some (ground_dxy h') =
             (if wanted_movement_direction8 (state h) = - 1 then
                (if ice_movement_direction8 h = - 1 then Some (0, 0)
                 else direction_to_xy_move (ice_movement_direction8 h))
              else if ice_movement_direction8 h = - 1 then
                direction_to_xy_move ((wanted_movement_direction8 (state h) + 4) mod 8)
              else if ice_movement_direction8 h \<noteq> wanted_movement_direction8 (state h) then
                direction_to_xy_move (ice_movement_direction8 h)
              else direction_to_xy_move (wanted_movement_direction8 (state h))) \<and>
           next_ice_date h' =
             (if wanted_movement_direction8 (state h) = - 1 \<and> ice_movement_direction8 h = - 1
              then now + 1000
              else if wanted_movement_direction8 (state h) \<noteq> - 1 \<and> ice_movement_direction8 h = - 1
              then next_ice_date h
              else now + 300))) \<and>
   (ice_movement_direction8 h = - 1 \<and> 0 \<le> wanted_movement_direction8 (state h) \<and>
    wanted_movement_direction8 (state h) \<le> 7 \<and> ground_below h = GROUND_ICE \<and>
    ground_dxy h = (0, 0) \<and> next_ground_date h \<le> now \<and> next_ice_date h \<le> now \<longrightarrow>
      (\<exists>h1. Hero_update_ground_effects env now h = Some h1 \<and>
           Some (ground_dxy h1) = direction_to_xy_move ((wanted_movement_direction8 (state h) + 4) mod 8) \<and>
           ice_movement_direction8 h1 = wanted_movement_direction8 (state h) \<and>
           wanted_movement_direction8 (state h1) = wanted_movement_direction8 (state h) \<and>
           next_ground_date h1 = now + 20 \<and> next_ice_date h1 = next_ice_date h \<and>
           (\<forall>now'. \<exists>h2. Hero_update_ice now' h1 = Some h2 \<and>
                 Some (ground_dxy h2) = direction_to_xy_move (wanted_movement_direction8 (state h)) \<and>
                 next_ice_date h2 = now' + 300)))"
  using ice_reevaluation [of h now] ice_from_rest [of h now env] by blast

theorem ice_slide_law_witness:
  "Hero_update_ice 1000 (ice_hero (- 1)) =
     Some ((ice_hero (- 1))\<lparr>ground_dxy := (0, 0), next_ice_date := 2000\<rparr>) \<and>
   (\<exists>h1 h2 h3.
      Hero_update_ground_effects (sample_env (\<lambda>l r h. False)) 1000 (ice_hero 0) = Some h1 \<and>
      ground_dxy h1 = (- 1, 0) \<and> get_x h1 = 100 \<and> next_ground_date h1 = 1020 \<and> next_ice_date h1 = 1000 \<and>
      Hero_update_ground_effects (sample_env (\<lambda>l r h. False)) 1020 h1 = Some h2 \<and>
      ground_dxy h2 = (1, 0) \<and> get_x h2 = 99 \<and> next_ground_date h2 = 1040 \<and> next_ice_date h2 = 1320 \<and>
      Hero_update_ground_effects (sample_env (\<lambda>l r h. False)) 1320 h2 = Some h3 \<and>
      ground_dxy h3 = (1, 0) \<and> get_x h3 = 100 \<and> next_ice_date h3 = 1620)"
proof -
  let ?env = "sample_env (\<lambda>l r h. False)"
  have a: "Hero_update_ice 1000 (ice_hero (- 1)) =
     Some ((ice_hero (- 1))\<lparr>ground_dxy := (0, 0), next_ice_date := 2000\<rparr>)"
    using ice_slide_law [of "ice_hero (- 1)" 1000 ?env]
    by (auto simp: ice_hero_def sample_hero_def sample_state_def)
  obtain h1 where h1: "Hero_update_ground_effects ?env 1000 (ice_hero 0) = Some h1"
     and p1: "Some (ground_dxy h1) = direction_to_xy_move ((0 + 4) mod 8)"
       "ice_movement_direction8 h1 = 0" "next_ground_date h1 = 1020" "next_ice_date h1 = 1000"
    using ice_slide_law [of "ice_hero 0" 1000 ?env]
    by (auto simp: ice_hero_def sample_hero_def sample_state_def)
  have e1: "h1 = (ice_hero 0)\<lparr>next_ground_date := 1020, ground_dxy := (- 1, 0), ice_movement_direction8 := 0\<rparr>"
    using h1
    by (simp add: ice_hero_def sample_hero_def sample_state_def sample_env_def
        Hero_update_ground_effects_def Hero_is_ground_visible_def Hero_update_ice_def
        Hero_apply_additional_ground_movement_def cpp_mod_def direction_to_xy_move_def Let_def)
  let ?h2 = "(ice_hero 0)\<lparr>bounding_box := sample_box 91 87, next_ground_date := 1040,
     ground_dxy := (1, 0), ice_movement_direction8 := 0, next_ice_date := 1320,
     last_solid_ground_coords := (99, 100)\<rparr>"
  have h2: "Hero_update_ground_effects ?env 1020 h1 = Some ?h2"
    unfolding e1
    by (simp add: ice_hero_def sample_hero_def sample_state_def sample_env_def sample_box_def
        Hero_update_ground_effects_def Hero_is_ground_visible_def Hero_update_ice_def
        Hero_apply_additional_ground_movement_def Hero_notify_position_changed_def
        Hero_check_position_def get_x_def get_y_def add_xy_def
        cpp_mod_def direction_to_xy_move_def Let_def)
  let ?h3 = "?h2\<lparr>bounding_box := sample_box 92 87, next_ground_date := 1340, next_ice_date := 1620,
     last_solid_ground_coords := (100, 100)\<rparr>"
  have h3: "Hero_update_ground_effects ?env 1320 ?h2 = Some ?h3"
    by (simp add: ice_hero_def sample_hero_def sample_state_def sample_env_def sample_box_def
        Hero_update_ground_effects_def Hero_is_ground_visible_def Hero_update_ice_def
        Hero_apply_additional_ground_movement_def Hero_notify_position_changed_def
        Hero_check_position_def get_x_def get_y_def add_xy_def
        cpp_mod_def direction_to_xy_move_def Let_def)
  have "ground_dxy h1 = (- 1, 0) \<and> get_x h1 = 100 \<and> next_ground_date h1 = 1020 \<and> next_ice_date h1 = 1000"
    by (simp add: e1 ice_hero_def sample_hero_def sample_box_def get_x_def)
  moreover have "ground_dxy ?h2 = (1, 0) \<and> get_x ?h2 = 99 \<and> next_ground_date ?h2 = 1040 \<and> next_ice_date ?h2 = 1320"
    by (simp add: ice_hero_def sample_hero_def sample_box_def get_x_def)
  moreover have "ground_dxy ?h3 = (1, 0) \<and> get_x ?h3 = 100 \<and> next_ice_date ?h3 = 1620"
    by (simp add: ice_hero_def sample_hero_def sample_box_def get_x_def)
  ultimately show ?thesis using a h1 h2 h3 by blast
qed

subsection \<open>The position check\<close>

text \<open>
  C9, as the code has it. Let \<open>h1\<close> be the hero after the detector check and \<open>h2\<close> the
  hero after the ground below was sampled again, and let those two callbacks and the layer
  change leave the remembered position alone. Then \<open>check_position\<close> stores the current
  coordinates and layer as the last solid ground exactly when the hero is on a map, the
  state does not ignore collisions, the hero is not suspended, the ground is none of deep
  water, hole, lava, prickle and empty, the state allows coming from bad ground, and the
  coordinates differ from the stored ones; otherwise the memory is as before.
\<close>

theorem solid_ground_memory:
  assumes "keeps_solid_ground_memory (check_collision_with_detectors env True)"
    and "keeps_solid_ground_memory (update_ground_below env)"
    and "keeps_solid_ground_memory (set_entity_layer env LAYER_LOW)"
    and "keeps_solid_ground_memory (set_entity_layer env LAYER_INTERMEDIATE)"
    and "h1 = check_collision_with_detectors env True h"
    and "h2 = update_ground_below env h1"
  shows "(last_solid_ground_coords (Hero_check_position env h),
          last_solid_ground_layer (Hero_check_position env h)) =
         (if on_map h \<and> \<not> are_collisions_ignored (state h) \<and> \<not> suspended h1
             \<and> safe_ground (ground_below h2) \<and> can_come_from_bad_ground (state h2)
             \<and> (get_x h2, get_y h2) \<noteq> last_solid_ground_coords h
          then ((get_x h2, get_y h2), layer h2)
          else (last_solid_ground_coords h, last_solid_ground_layer h))"
proof -
  have m1: "last_solid_ground_coords h1 = last_solid_ground_coords h"
           "last_solid_ground_layer h1 = last_solid_ground_layer h"
    using assms(1,5) by (simp_all add: keeps_solid_ground_memory_def)
  have m2: "last_solid_ground_coords h2 = last_solid_ground_coords h"
           "last_solid_ground_layer h2 = last_solid_ground_layer h"
    using assms(2,6) m1 by (simp_all add: keeps_solid_ground_memory_def)
  have l: "\<And>l x. last_solid_ground_coords (set_entity_layer env (layer_below l) x) = last_solid_ground_coords x"
          "\<And>l x. last_solid_ground_layer (set_entity_layer env (layer_below l) x) = last_solid_ground_layer x"
    using assms(3,4) by (simp_all add: keeps_solid_ground_memory_def layer_below_def split: layer.splits)
  show ?thesis
    using m1 m2 assms(5,6)
    by (auto simp: Hero_check_position_def Let_def safe_ground_def l prod_eq_iff)
qed

theorem solid_ground_memory_witness:
  "(last_solid_ground_coords (Hero_check_position (sample_env (\<lambda>l r h. False)) (walking_hero True)),
    last_solid_ground_layer (Hero_check_position (sample_env (\<lambda>l r h. False)) (walking_hero True)))
   = ((100, 100), LAYER_LOW)"
  using solid_ground_memory [of "sample_env (\<lambda>l r h. False)" "walking_hero True" "walking_hero True" "walking_hero True"]
  by (simp add: sample_env_def keeps_solid_ground_memory_def walking_hero_def sample_hero_def
      sample_state_def sample_box_def safe_ground_def get_x_def get_y_def)

text \<open>
  C9 as the spec words it leaves out the query \<open>can_come_from_bad_ground\<close>: when the state
  answers no, all the conditions of the spec hold and the memory is not updated.
\<close>

theorem solid_ground_memory_counterexample:
  "\<not> are_collisions_ignored (state (walking_hero False)) \<and>
   \<not> suspended (walking_hero False) \<and>
   safe_ground (ground_below (walking_hero False)) \<and>
   (get_x (walking_hero False), get_y (walking_hero False)) = (100, 100) \<and>
   last_solid_ground_coords (walking_hero False) = (90, 100) \<and>
   last_solid_ground_coords (Hero_check_position (sample_env (\<lambda>l r h. False)) (walking_hero False)) = (90, 100)"
  by (simp add: sample_env_def walking_hero_def sample_hero_def
      sample_state_def sample_box_def safe_ground_def get_x_def get_y_def Hero_check_position_def)

subsection \<open>Suspension\<close>

text \<open>
  What a suspension at \<open>t0\<close> followed by a resumption at \<open>t1\<close> does to the deadlines.
\<close>

lemma StreamAction_resume_shift:
  "next_move_date (StreamAction_set_suspended t1 False (StreamAction_set_suspended t0 True a)) =
     (if t0 \<noteq> 0 then next_move_date a + (t1 - t0) else next_move_date a)"
  by (simp add: StreamAction_set_suspended_def Let_def)

lemma Hero_resume_shift:
  assumes "\<And>b x. next_ground_date (state_set_suspended env b x) = next_ground_date x"
    and "\<And>b x. next_ice_date (state_set_suspended env b x) = next_ice_date x"
    and "\<And>b x. when_suspended (state_set_suspended env b x) = when_suspended x"
  shows "next_ground_date (Hero_set_suspended env t1 False (Hero_set_suspended env t0 True h)) =
           next_ground_date h + (t1 - t0)"
    and "next_ice_date (Hero_set_suspended env t1 False (Hero_set_suspended env t0 True h)) =
           next_ice_date h"
  by (simp_all add: Hero_set_suspended_def MapEntity_set_suspended_def assms Let_def)

text \<open>
  C7 at a failing input. A hero that stepped on ice at 1000 while walking east slides; the
  pipeline runs every 20 ms and at 1100 leaves the ground deadline at 1120 and the ice
  deadline at 1300. The player has released the key; the game is suspended at 1100 and
  resumed at 2100. The resume moves the ground deadline to 2120 and leaves the ice
  deadline at 1300, a date already past. So the first run of the pipeline after the
  resume, at 2120, re-evaluates the ice movement at once: the remembered ice direction
  becomes -1 and the next ice deadline 2420. With the ice deadline moved by the pause as
  the ground deadline is, to 2300, the same run leaves the direction 0 and the deadline
  alone. The stream action paused over the same interval moves its deadline from 1120 to
  2120.
\<close>

theorem resume_skips_ice_deadline:
  "map_option (\<lambda>h. (next_ground_date h, next_ice_date h, ice_movement_direction8 h, ground_dxy h,
                    ground_below h, suspended h))
     (case Hero_start_ice 1000 (ice_hero 0) of
        None \<Rightarrow> None
      | Some h \<Rightarrow> Hero_ground_effects_at (sample_env (\<lambda>l r h. False))
                    [1000, 1020, 1040, 1060, 1080, 1100] h)
     = Some (1120, 1300, 0, (1, 0), GROUND_ICE, False) \<and>
   (next_ground_date sliding_hero, next_ice_date sliding_hero, ice_movement_direction8 sliding_hero,
    ground_dxy sliding_hero, ground_below sliding_hero, suspended sliding_hero)
     = (1120, 1300, 0, (1, 0), GROUND_ICE, False) \<and>
   next_ground_date resumed_hero = 2120 \<and> next_ice_date resumed_hero = 1300 \<and>
   \<not> suspended resumed_hero \<and>
   map_option (\<lambda>h. (ice_movement_direction8 h, next_ice_date h))
     (Hero_update_ground_effects (sample_env (\<lambda>l r h. False)) 2120 resumed_hero)
     = Some (- 1, 2420) \<and>
   map_option (\<lambda>h. (ice_movement_direction8 h, next_ice_date h))
     (Hero_update_ground_effects (sample_env (\<lambda>l r h. False)) 2120
        (resumed_hero\<lparr>next_ice_date := next_ice_date sliding_hero + (2100 - 1100)\<rparr>))
     = Some (0, 2300) \<and>
   next_move_date (StreamAction_set_suspended 2100 False
      (StreamAction_set_suspended 1100 True (scenario_action 0 1120))) = 2120"
  by (simp add: resumed_hero_def sliding_hero_def Hero_start_ice_def ice_hero_def Hero_set_suspended_def MapEntity_set_suspended_def
      sample_env_def sample_hero_def sample_state_def sample_box_def
      StreamAction_set_suspended_def scenario_action_def Let_def
      Hero_update_ground_effects_def Hero_is_ground_visible_def Hero_update_ice_def
      Hero_apply_additional_ground_movement_def Hero_notify_position_changed_def
      Hero_check_position_def get_x_def get_y_def add_xy_def direction_to_xy_move_def)

section \<open>Stepping along a stream\<close>

lemma set_xy_box:
  "bounding_box (set_xy e (get_x e + mx) (get_y e + my)) = add_xy (bounding_box e) mx my"
  "layer (set_xy e x y) = layer e"
  "get_x (set_xy e x y) = x" "get_y (set_xy e x y) = y"
  by (simp_all add: set_xy_def get_x_def get_y_def add_xy_def)

lemma has_reached_target_frame [simp]:
  "has_reached_target (a\<lparr>next_move_date := n\<rparr>) e = has_reached_target a e"
  "has_reached_target (a\<lparr>entity_moved := x\<rparr>) e = has_reached_target a e"
  by (simp_all add: has_reached_target_def)

lemma update_loop_step:
  assumes "next_move_date a \<le> now" and "is_active a" and "stream a = Some s"
    and "entity_moved a = Some e"
  shows "update_loop w now a =
     (if test_collision_with_obstacles w (layer e) (add_xy (bounding_box e) (dx a) (dy a)) e
      then Some (a\<lparr>next_move_date := next_move_date a + delay a,
                  active := allow_movement s\<rparr>)
      else update_loop w now
             (a\<lparr>next_move_date := next_move_date a + delay a,
                entity_moved := Some (notify_position_changed w (set_xy e (get_x e + dx a) (get_y e + dy a))),
                active := \<not> has_reached_target a
                   (notify_position_changed w (set_xy e (get_x e + dx a) (get_y e + dy a)))\<rparr>))"
proof -
  let ?e1 = "notify_position_changed w (set_xy e (get_x e + dx a) (get_y e + dy a))"
  have act: "active a" using assms(2) by (simp add: is_active_def)
  have same: "a\<lparr>next_move_date := next_move_date a + delay a, active := True\<rparr> =
              a\<lparr>next_move_date := next_move_date a + delay a\<rparr>"
    using act by simp
  have same2: "a\<lparr>next_move_date := next_move_date a + delay a, entity_moved := Some ?e1, active := True\<rparr> =
              a\<lparr>next_move_date := next_move_date a + delay a, entity_moved := Some ?e1\<rparr>"
    using act by simp
  show ?thesis
    apply (subst update_loop.simps)
    using assms
    by (cases "has_reached_target a ?e1"; cases "allow_movement s")
       (simp_all add: Let_def test_obstacles_def same same2)
qed

text \<open>
  C6. One turn of the stepping loop, entered when the deadline has passed on an active
  action. If the collision query on the box translated by one step answers true, the loop
  ends there: the entity is as it was, the deadline has advanced by the delay, and the
  action stays active only if the stream allows free movement. Otherwise the entity is
  moved by the step, notified, and the loop goes on with an action that is inactive
  exactly when each axis is finished: a zero step component, or the position at or past
  the target in the direction of the step.
\<close>

theorem stream_step_law:
  assumes "next_move_date a \<le> now" and "is_active a" and "stream a = Some s"
    and "entity_moved a = Some e"
    and "e1 = notify_position_changed w (set_xy e (get_x e + dx a) (get_y e + dy a))"
  shows "update_loop w now a =
     (if test_collision_with_obstacles w (layer e) (add_xy (bounding_box e) (dx a) (dy a)) e
      then Some (a\<lparr>next_move_date := next_move_date a + delay a,
                  active := allow_movement s\<rparr>)
      else update_loop w now
             (a\<lparr>next_move_date := next_move_date a + delay a,
                entity_moved := Some e1,
                active := \<not> ((dx a = 0 \<or> 0 < dx a \<and> target_x a \<le> get_x e1 \<or> dx a < 0 \<and> get_x e1 \<le> target_x a) \<and>
                             (dy a = 0 \<or> 0 < dy a \<and> target_y a \<le> get_y e1 \<or> dy a < 0 \<and> get_y e1 \<le> target_y a))\<rparr>))"
  using update_loop_step [OF assms(1-4), of w] assms(5)
  by (simp add: has_reached_target_def Let_def)

lemma scenario_new: "StreamAction_new 0 (sample_stream 0 4 False) (sample_entity 0 0) = Some (scenario_action 0 250)"
  by (simp add: StreamAction_new_def sample_stream_def sample_entity_def sample_box_def
      direction_to_xy_move_def cpp_div_def get_x_def get_y_def scenario_action_def)

lemma scenario_eight_steps:
  "apply_ops [Op_update blocked_world 250, Op_update blocked_world 500, Op_update blocked_world 750,
              Op_update blocked_world 1000, Op_update blocked_world 1250, Op_update blocked_world 1500,
              Op_update blocked_world 1750, Op_update blocked_world 2000] (scenario_action 0 250)
   = Some (scenario_action 8 2250)"
  by (simp add: StreamAction_update_def update_loop.simps scenario_action_def is_active_def is_suspended_def
      blocked_world_def sample_world_def sample_stream_def
      sample_entity_def sample_box_def add_xy_def set_xy_def get_x_def get_y_def test_obstacles_def
      has_reached_target_def Let_def)

theorem stream_step_law_witness:
  "\<exists>a0 a8 a9.
     StreamAction_new 0 (sample_stream 0 4 False) (sample_entity 0 0) = Some a0 \<and>
     delay a0 = 250 \<and> target_x a0 = 24 \<and> map_option get_x (entity_moved a0) = Some 8 \<and>
     apply_ops [Op_update blocked_world 250, Op_update blocked_world 500, Op_update blocked_world 750,
              Op_update blocked_world 1000, Op_update blocked_world 1250, Op_update blocked_world 1500,
              Op_update blocked_world 1750, Op_update blocked_world 2000] a0 = Some a8 \<and>
     is_active a8 \<and> map_option get_x (entity_moved a8) = Some 16 \<and>
     StreamAction_update blocked_world 2250 a8 = Some a9 \<and>
     \<not> is_active a9 \<and> map_option get_x (entity_moved a9) = Some 16 \<and>
     entity_moved a9 = entity_moved a8"
proof -
  let ?a8 = "scenario_action 8 2250"
  have "update_loop blocked_world 2250 ?a8 = Some (?a8\<lparr>next_move_date := 2500, active := False\<rparr>)"
    using stream_step_law [of ?a8 2250 "sample_stream 0 4 False" "sample_entity 8 0" _ blocked_world]
    by (simp add: scenario_action_def is_active_def blocked_world_def sample_world_def sample_stream_def
        sample_entity_def sample_box_def add_xy_def)
  then have "StreamAction_update blocked_world 2250 ?a8 = Some (?a8\<lparr>next_move_date := 2500, active := False\<rparr>)"
    by (simp add: StreamAction_update_def scenario_action_def is_active_def is_suspended_def
        sample_stream_def sample_entity_def)
  then show ?thesis
    using scenario_new scenario_eight_steps
    by (simp add: scenario_action_def is_active_def sample_entity_def sample_box_def get_x_def)
qed

subsection \<open>The update returns\<close>

text \<open>
  When the position-changed notification leaves the entity where the step put it, every
  free step brings an unfinished axis closer to the target, so the loop ends; and an action
  made by the constructor never meets a null pointer while it is active.
\<close>

lemma remaining_zero_iff:
  "remaining d target pos = 0 \<longleftrightarrow> (d = 0 \<or> 0 < d \<and> target \<le> pos \<or> d < 0 \<and> pos \<le> target)"
  by (auto simp: remaining_def)

lemma remaining_step:
  "remaining d target pos \<noteq> 0 \<Longrightarrow> remaining d target (pos + d) < remaining d target pos"
  by (auto simp: remaining_def split: if_splits)

lemma remaining_step_le:
  "remaining d target (pos + d) \<le> remaining d target pos"
  by (auto simp: remaining_def split: if_splits)

lemma update_loop_returns:
  assumes "notify_position_changed w = (\<lambda>e. e)" and "stream a = Some s" and "entity_moved a = Some e"
  shows "\<exists>a'. update_loop w now a = Some a'"
  using assms(2,3)
proof (induction "remaining (dx a) (target_x a) (get_x e) + remaining (dy a) (target_y a) (get_y e)"
       arbitrary: a e rule: less_induct)
  case less
  show ?case
  proof (cases "next_move_date a \<le> now \<and> is_active a")
    case False
    then show ?thesis by (subst update_loop.simps) auto
  next
    case True
    let ?e1 = "set_xy e (get_x e + dx a) (get_y e + dy a)"
    let ?a1 = "a\<lparr>next_move_date := next_move_date a + delay a, entity_moved := Some ?e1,
                 active := \<not> has_reached_target a ?e1\<rparr>"
    have step: "update_loop w now a =
       (if test_collision_with_obstacles w (layer e) (add_xy (bounding_box e) (dx a) (dy a)) e
        then Some (a\<lparr>next_move_date := next_move_date a + delay a, active := allow_movement s\<rparr>)
        else update_loop w now ?a1)"
      using update_loop_step [of a now s e w] True less.prems assms(1) by simp
    show ?thesis
    proof (cases "test_collision_with_obstacles w (layer e) (add_xy (bounding_box e) (dx a) (dy a)) e")
      case True
      then show ?thesis using step by simp
    next
      case free: False
      show ?thesis
      proof (cases "has_reached_target a ?e1")
        case True
        then have "update_loop w now ?a1 = Some ?a1"
          by (subst update_loop.simps) (simp add: is_active_def)
        then show ?thesis using step free by simp
      next
        case False
        then have nz: "remaining (dx a) (target_x a) (get_x ?e1) \<noteq> 0 \<or>
                       remaining (dy a) (target_y a) (get_y ?e1) \<noteq> 0"
          by (auto simp: has_reached_target_def remaining_zero_iff Let_def)
        have xs: "get_x ?e1 = get_x e + dx a" "get_y ?e1 = get_y e + dy a"
          by (simp_all add: set_xy_box)
        have lex: "remaining (dx a) (target_x a) (get_x ?e1) \<le> remaining (dx a) (target_x a) (get_x e)"
          and ley: "remaining (dy a) (target_y a) (get_y ?e1) \<le> remaining (dy a) (target_y a) (get_y e)"
          unfolding xs by (rule remaining_step_le)+
        have "remaining (dx a) (target_x a) (get_x ?e1) < remaining (dx a) (target_x a) (get_x e) \<or>
              remaining (dy a) (target_y a) (get_y ?e1) < remaining (dy a) (target_y a) (get_y e)"
          using nz lex ley remaining_step [of "dx a" "target_x a" "get_x e"]
            remaining_step [of "dy a" "target_y a" "get_y e"] unfolding xs by linarith
        then have dec: "remaining (dx ?a1) (target_x ?a1) (get_x ?e1) + remaining (dy ?a1) (target_y ?a1) (get_y ?e1)
              < remaining (dx a) (target_x a) (get_x e) + remaining (dy a) (target_y a) (get_y e)"
          using lex ley by (simp del: set_xy_box) linarith
        have "\<exists>a'. update_loop w now ?a1 = Some a'"
          by (rule less.hyps [OF dec]) (simp_all add: less.prems)
        then show ?thesis using step free by simp
      qed
    qed
  qed
qed

lemma pointers_ok_new: "StreamAction_new now s e = Some a \<Longrightarrow> pointers_ok a"
  by (auto simp: StreamAction_new_def pointers_ok_def Let_def split: option.splits if_splits prod.splits)

lemma update_loop_pointers:
  assumes "update_loop w now a = Some a'"
  shows "stream a' = stream a \<and> (entity_moved a \<noteq> None \<longrightarrow> entity_moved a' \<noteq> None)"
proof (rule update_loop.raw_induct
    [where P = "\<lambda>w now a a'. stream a' = stream a \<and> (entity_moved a \<noteq> None \<longrightarrow> entity_moved a' \<noteq> None)",
     OF _ assms], goal_cases)
  case (1 f w now a a')
  show ?case using 1(2)
    by (auto simp: Let_def dest!: 1(1) split: if_splits option.splits)
qed

lemma StreamAction_update_pointers:
  "StreamAction_update w now a = Some a' \<Longrightarrow> pointers_ok a \<Longrightarrow> pointers_ok a'"
  by (auto simp: StreamAction_update_def pointers_ok_def is_active_def
      dest!: update_loop_pointers split: if_splits option.splits)

lemma StreamAction_update_returns:
  assumes "notify_position_changed w = (\<lambda>e. e)" and "pointers_ok a"
  shows "\<exists>a'. StreamAction_update w now a = Some a'"
proof (cases "is_active a")
  case False
  then show ?thesis by (simp add: StreamAction_update_def)
next
  case True
  then obtain s e where se: "stream a = Some s" "entity_moved a = Some e"
    using assms(2) by (auto simp: pointers_ok_def)
  show ?thesis
    using update_loop_returns [OF assms(1) se, of now] se
    by (auto simp: StreamAction_update_def)
qed

section \<open>Moves are committed only after a negative collision query\<close>

lemma apply_additional_ground_movement_cases:
  "Hero_apply_additional_ground_movement env h =
     (if fst (ground_dxy h) = 0 \<and> snd (ground_dxy h) = 0 then h
      else if \<not> map_test_collision_with_obstacles env (layer h)
                  (add_xy (bounding_box h) (fst (ground_dxy h)) (snd (ground_dxy h))) h
        then Hero_notify_position_changed env
               (h\<lparr>bounding_box := add_xy (bounding_box h) (fst (ground_dxy h)) (snd (ground_dxy h))\<rparr>)
      else if fst (ground_dxy h) \<noteq> 0 \<and>
              \<not> map_test_collision_with_obstacles env (layer h)
                  (add_xy (bounding_box h) (fst (ground_dxy h)) 0) h
        then Hero_notify_position_changed env
               (h\<lparr>bounding_box := add_xy (bounding_box h) (fst (ground_dxy h)) 0\<rparr>)
      else if snd (ground_dxy h) \<noteq> 0 \<and>
              \<not> map_test_collision_with_obstacles env (layer h)
                  (add_xy (bounding_box h) 0 (snd (ground_dxy h))) h
        then Hero_notify_position_changed env
               (h\<lparr>bounding_box := add_xy (bounding_box h) 0 (snd (ground_dxy h))\<rparr>)
      else if ground_below h = GROUND_HOLE
        then set_state env FallingState (Hero_set_walking_speed env (normal_walking_speed h) h)
      else h)"
  by (simp add: Hero_apply_additional_ground_movement_def Let_def)

text \<open>
  C2. The ground displacement helper writes a new bounding box in three places only, each
  under the test that the collision query on the hero's layer and on that very box answers
  false: the full displacement, else its x component, else its y component; when all three
  are refused it moves nothing. A turn of the stream's stepping loop leaves the entity as
  it is when the query on the translated box answers true, and otherwise commits exactly
  the box it queried, on the same layer. Neither function asks the state whether it
  ignores obstacles.
\<close>

theorem committed_moves_pass_collision_query:
  "Hero_apply_additional_ground_movement env h =
     (if fst (ground_dxy h) = 0 \<and> snd (ground_dxy h) = 0 then h
      else if \<not> map_test_collision_with_obstacles env (layer h)
                  (add_xy (bounding_box h) (fst (ground_dxy h)) (snd (ground_dxy h))) h
        then Hero_notify_position_changed env
               (h\<lparr>bounding_box := add_xy (bounding_box h) (fst (ground_dxy h)) (snd (ground_dxy h))\<rparr>)
      else if fst (ground_dxy h) \<noteq> 0 \<and>
              \<not> map_test_collision_with_obstacles env (layer h)
                  (add_xy (bounding_box h) (fst (ground_dxy h)) 0) h
        then Hero_notify_position_changed env
               (h\<lparr>bounding_box := add_xy (bounding_box h) (fst (ground_dxy h)) 0\<rparr>)
      else if snd (ground_dxy h) \<noteq> 0 \<and>
              \<not> map_test_collision_with_obstacles env (layer h)
                  (add_xy (bounding_box h) 0 (snd (ground_dxy h))) h
        then Hero_notify_position_changed env
               (h\<lparr>bounding_box := add_xy (bounding_box h) 0 (snd (ground_dxy h))\<rparr>)
      else if ground_below h = GROUND_HOLE
        then set_state env FallingState (Hero_set_walking_speed env (normal_walking_speed h) h)
      else h) \<and>
   (next_move_date a \<le> now \<and> is_active a \<and> stream a = Some s \<and> entity_moved a = Some e \<longrightarrow>
      (if test_collision_with_obstacles w (layer e) (add_xy (bounding_box e) (dx a) (dy a)) e
       then \<exists>a'. update_loop w now a = Some a' \<and> entity_moved a' = Some e
       else \<exists>e1. e1 = set_xy e (get_x e + dx a) (get_y e + dy a) \<and>
              bounding_box e1 = add_xy (bounding_box e) (dx a) (dy a) \<and> layer e1 = layer e \<and>
              update_loop w now a =
                update_loop w now
                  (a\<lparr>next_move_date := next_move_date a + delay a,
                     entity_moved := Some (notify_position_changed w e1),
                     active := \<not> has_reached_target a (notify_position_changed w e1)\<rparr>)))"
proof -
  have "next_move_date a \<le> now \<and> is_active a \<and> stream a = Some s \<and> entity_moved a = Some e \<longrightarrow>
      (if test_collision_with_obstacles w (layer e) (add_xy (bounding_box e) (dx a) (dy a)) e
       then \<exists>a'. update_loop w now a = Some a' \<and> entity_moved a' = Some e
       else \<exists>e1. e1 = set_xy e (get_x e + dx a) (get_y e + dy a) \<and>
              bounding_box e1 = add_xy (bounding_box e) (dx a) (dy a) \<and> layer e1 = layer e \<and>
              update_loop w now a =
                update_loop w now
                  (a\<lparr>next_move_date := next_move_date a + delay a,
                     entity_moved := Some (notify_position_changed w e1),
                     active := \<not> has_reached_target a (notify_position_changed w e1)\<rparr>))"
  proof (intro impI, elim conjE)
    assume p: "next_move_date a \<le> now" "is_active a" "stream a = Some s" "entity_moved a = Some e"
    show "if test_collision_with_obstacles w (layer e) (add_xy (bounding_box e) (dx a) (dy a)) e
       then \<exists>a'. update_loop w now a = Some a' \<and> entity_moved a' = Some e
       else \<exists>e1. e1 = set_xy e (get_x e + dx a) (get_y e + dy a) \<and>
              bounding_box e1 = add_xy (bounding_box e) (dx a) (dy a) \<and> layer e1 = layer e \<and>
              update_loop w now a =
                update_loop w now
                  (a\<lparr>next_move_date := next_move_date a + delay a,
                     entity_moved := Some (notify_position_changed w e1),
                     active := \<not> has_reached_target a (notify_position_changed w e1)\<rparr>)"
      using update_loop_step [OF p, of w] p(4) by (simp add: set_xy_box)
  qed
  then show ?thesis using apply_additional_ground_movement_cases [of env h] by blast
qed

theorem committed_moves_pass_collision_query_witness:
  "map_test_collision_with_obstacles (sample_env (\<lambda>l r h. 92 < rect_x r)) LAYER_LOW (sample_box 93 88) cornered_hero \<and>
   map_test_collision_with_obstacles (sample_env (\<lambda>l r h. 92 < rect_x r)) LAYER_LOW (sample_box 93 87) cornered_hero \<and>
   \<not> map_test_collision_with_obstacles (sample_env (\<lambda>l r h. 92 < rect_x r)) LAYER_LOW (sample_box 92 88) cornered_hero \<and>
   bounding_box cornered_hero = sample_box 92 87 \<and>
   bounding_box (Hero_apply_additional_ground_movement (sample_env (\<lambda>l r h. 92 < rect_x r)) cornered_hero)
     = sample_box 92 88 \<and>
   (\<exists>a'. update_loop blocked_world 2250 (scenario_action 8 2250) = Some a' \<and>
         entity_moved a' = Some (sample_entity 8 0))"
  using committed_moves_pass_collision_query [of "sample_env (\<lambda>l r h. 92 < rect_x r)" cornered_hero
      "scenario_action 8 2250" 2250 "sample_stream 0 4 False" "sample_entity 8 0" blocked_world]
  by (simp add: cornered_hero_def sample_hero_def sample_env_def sample_box_def sample_state_def add_xy_def
       Hero_notify_position_changed_def Hero_check_position_def get_x_def get_y_def
       scenario_action_def is_active_def blocked_world_def sample_world_def sample_entity_def)

section \<open>Properties of the state transitions\<close>

lemma retired_append [simp]: "retired (h\<lparr>old_states := old_states h @ [p]\<rparr>) = retired h \<union> set_option p"
  by (cases p) (auto simp: retired_def)

lemma retired_frame [simp]:
  "retired (h\<lparr>state_ptr := x\<rparr>) = retired h" "retired (h\<lparr>allocated := A\<rparr>) = retired h"
  by (simp_all add: retired_def)

lemma well_formed_alloc:
  "well_formed h \<Longrightarrow> well_formed (h\<lparr>allocated := insert s (allocated h)\<rparr>)"
  by (auto simp: well_formed_def)

lemma well_formed_install:
  assumes "well_formed h" and "s \<in> allocated h" and "s \<notin> retired h" and "state_ptr h \<noteq> Some s"
  shows "well_formed (h\<lparr>old_states := old_states h @ [state_ptr h], state_ptr := Some s\<rparr>)"
proof (cases "state_ptr h")
  case None
  then show ?thesis using assms by (auto simp: well_formed_def)
next
  case (Some old)
  then have "Some old \<notin> set (old_states h)" using assms(1) by (auto simp: well_formed_def retired_def)
  then show ?thesis using assms Some by (auto simp: well_formed_def)
qed

lemma callback_unchanged_state:
  assumes "grows h rs h'" and "set rs \<inter> allocated h = {}"
    and "rs \<noteq> [] \<longrightarrow> state_ptr h' = Some (last rs)" and "rs = [] \<longrightarrow> h' = h"
    and "state_ptr h = Some p" and "p \<in> allocated h"
  shows "state_ptr h' = Some p \<longleftrightarrow> rs = []"
proof (cases "rs = []")
  case True
  then show ?thesis using assms by simp
next
  case False
  then have "last rs \<in> set rs" by simp
  then have "last rs \<noteq> p" using assms(2,6) by auto
  then show ?thesis using False assms(3) by simp
qed

lemma transitions_sound:
  shows "Hero_set_state h s rs h' \<Longrightarrow>
           well_formed h \<Longrightarrow> s \<in> allocated h \<Longrightarrow> s \<notin> retired h \<Longrightarrow> state_ptr h \<noteq> Some s \<Longrightarrow>
           grows h rs h' \<and> (set rs - {s}) \<inter> allocated h = {} \<and> s \<in> set rs \<and>
           state_ptr h' = Some (last rs) \<and>
           retired h' = retired h \<union> set_option (state_ptr h) \<union> (set rs - {last rs})"
    and "start_new_state h old s rs h' \<Longrightarrow>
           well_formed h \<Longrightarrow> old = state_ptr h \<Longrightarrow> s \<in> allocated h \<Longrightarrow> s \<notin> retired h \<Longrightarrow>
           state_ptr h \<noteq> Some s \<Longrightarrow>
           grows h rs h' \<and> set rs \<inter> allocated h = {} \<and>
           state_ptr h' = Some (last (s # rs)) \<and>
           retired h' = retired h \<union> set_option old \<union> (set (s # rs) - {last (s # rs)})"
    and "callback h rs h' \<Longrightarrow>
           well_formed h \<Longrightarrow>
           grows h rs h' \<and> set rs \<inter> allocated h = {} \<and> (rs = [] \<longrightarrow> h' = h) \<and>
           (rs \<noteq> [] \<longrightarrow> state_ptr h' = Some (last rs) \<and>
              retired h' = retired h \<union> set_option (state_ptr h) \<union> (set rs - {last rs}))"
proof (induction rule: Hero_set_state_start_new_state_callback.inducts)
  case (callback_returns h)
  then show ?case by (simp add: grows_def)
next
  case (callback_calls s h rs h1 rs' h2)
  let ?h0 = "h\<lparr>allocated := insert s (allocated h)\<rparr>"
  have wf0: "well_formed ?h0" using callback_calls.prems by (rule well_formed_alloc)
  have fresh: "s \<notin> retired h" "state_ptr h \<noteq> Some s"
    using callback_calls.prems callback_calls.hyps(1) by (auto simp: well_formed_def)
  have a: "grows ?h0 rs h1" "(set rs - {s}) \<inter> allocated ?h0 = {}" "s \<in> set rs"
       "state_ptr h1 = Some (last rs)"
       "retired h1 = retired h \<union> set_option (state_ptr h) \<union> (set rs - {last rs})"
    using callback_calls.IH(1) [OF wf0] fresh by simp_all
  have alloc1: "allocated h1 = allocated h \<union> set rs" using a(1,3) by (auto simp: grows_def)
  have rsfresh: "set rs \<inter> allocated h = {}" using a(2) callback_calls.hyps(1) by auto
  have wf1: "well_formed h1" using a(1) by (simp add: grows_def)
  have b: "grows h1 rs' h2" "set rs' \<inter> allocated h1 = {}" "rs' = [] \<longrightarrow> h2 = h1"
     "rs' \<noteq> [] \<longrightarrow> state_ptr h2 = Some (last rs') \<and>
        retired h2 = retired h1 \<union> set_option (state_ptr h1) \<union> (set rs' - {last rs'})"
    using callback_calls.IH(2) [OF wf1] by simp_all
  have g: "grows h (rs @ rs') h2"
    using a(1) b(1) alloc1 by (auto simp: grows_def)
  have rsne: "rs \<noteq> []" using a(3) by auto
  have l: "rs' \<noteq> [] \<Longrightarrow> last rs' \<notin> set rs \<and> last rs \<in> set rs"
    using b(2) alloc1 rsne last_in_set by fastforce
  show ?case
  proof (cases "rs' = []")
    case True
    then show ?thesis using g a rsfresh b(3) rsne by simp
  next
    case False
    have "retired h2 = retired h \<union> set_option (state_ptr h) \<union> (set (rs @ rs') - {last (rs @ rs')})"
      using False b(4) a(4,5) l by auto
    then show ?thesis using g False b rsfresh alloc1 by auto
  qed
next
  case (first_state h s rs h')
  have "grows h rs h' \<and> set rs \<inter> allocated h = {} \<and>
           state_ptr h' = Some (last (s # rs)) \<and>
           retired h' = retired h \<union> set_option None \<union> (set (s # rs) - {last (s # rs)})"
    using first_state.IH first_state.prems first_state.hyps(1) by simp
  moreover have "grows h rs h' \<Longrightarrow> grows h (s # rs) h'"
    using first_state.prems(2) by (auto simp: grows_def)
  ultimately show ?case using first_state.hyps(1) by auto
next
  case (old_state_stopped h old rs h1 s rs' h')
  have c: "grows h rs h1" "set rs \<inter> allocated h = {}" "rs = [] \<longrightarrow> h1 = h"
     "rs \<noteq> [] \<longrightarrow> state_ptr h1 = Some (last rs)"
    using old_state_stopped.IH(1) [OF old_state_stopped.prems(1)] by simp_all
  have "old \<in> allocated h" using old_state_stopped.prems(1) old_state_stopped.hyps(1)
    by (auto simp: well_formed_def)
  then have "rs = []"
    using callback_unchanged_state [OF c(1,2,4,3) old_state_stopped.hyps(1)] old_state_stopped.hyps(3)
    by simp
  then have h1: "h1 = h" using c(3) by simp
  have "grows h rs' h' \<and> set rs' \<inter> allocated h = {} \<and>
           state_ptr h' = Some (last (s # rs')) \<and>
           retired h' = retired h \<union> set_option (Some old) \<union> (set (s # rs') - {last (s # rs')})"
    using old_state_stopped.IH(2) old_state_stopped.prems old_state_stopped.hyps(1) h1 by simp
  moreover have "grows h rs' h' \<Longrightarrow> grows h (s # rs') h'"
    using old_state_stopped.prems(2) by (auto simp: grows_def)
  ultimately show ?case using old_state_stopped.hyps(1) \<open>rs = []\<close> by auto
next
  case (new_state_forced h old rs h1 s rs' h')
  have c: "grows h rs h1" "set rs \<inter> allocated h = {}" "rs = [] \<longrightarrow> h1 = h"
     "rs \<noteq> [] \<longrightarrow> state_ptr h1 = Some (last rs) \<and>
        retired h1 = retired h \<union> set_option (state_ptr h) \<union> (set rs - {last rs})"
    using new_state_forced.IH(1) [OF new_state_forced.prems(1)] by simp_all
  have rsne: "rs \<noteq> []" using c(3) new_state_forced.hyps(1,3) by auto
  then have lin: "last rs \<in> set rs" by simp
  have wf1: "well_formed h1" and alloc1: "allocated h1 = allocated h \<union> set rs"
    using c(1) by (simp_all add: grows_def)
  have s_notin: "s \<notin> set rs" using c(2) new_state_forced.prems(2) by auto
  have p1: "s \<in> allocated h1" "s \<notin> retired h1" "state_ptr h1 \<noteq> Some s"
    using alloc1 new_state_forced.prems(2,3,4) c(4) rsne s_notin lin new_state_forced.hyps(1)
    by auto
  have d: "grows h1 rs' h'" "(set rs' - {s}) \<inter> allocated h1 = {}" "s \<in> set rs'"
       "state_ptr h' = Some (last rs')"
       "retired h' = retired h1 \<union> set_option (state_ptr h1) \<union> (set rs' - {last rs'})"
    using new_state_forced.IH(2) [OF wf1 p1] by simp_all
  have rs'ne: "rs' \<noteq> []" using d(3) by auto
  have g: "grows h (s # rs @ rs') h'"
    using c(1) d(1) new_state_forced.prems(2) by (auto simp: grows_def)
  have last_notin: "last rs' \<notin> set rs"
  proof (cases "last rs' = s")
    case True
    then show ?thesis using s_notin by simp
  next
    case False
    then have "last rs' \<in> set rs' - {s}" using rs'ne by simp
    then show ?thesis using d(2) alloc1 by auto
  qed
  have ne: "last rs \<noteq> last rs'" using lin last_notin by metis
  have "retired h' = retired h \<union> set_option (state_ptr h) \<union> (set (s # rs @ rs') - {last (s # rs @ rs')})"
    using d(5,3) c(4) rsne rs'ne ne last_notin by auto
  moreover have "(set (s # rs @ rs') - {s}) \<inter> allocated h = {}"
    using c(2) d(2) alloc1 by auto
  ultimately show ?case using g d(4) rs'ne by simp
next
  case (started_and_checked s h old rs h1 rs' h2)
  let ?h0 = "h\<lparr>old_states := old_states h @ [old], state_ptr := Some s\<rparr>"
  have wf0: "well_formed ?h0"
    using well_formed_install [of h s] started_and_checked.prems by simp
  have c: "grows ?h0 rs h1" "set rs \<inter> allocated ?h0 = {}" "rs = [] \<longrightarrow> h1 = ?h0"
     "rs \<noteq> [] \<longrightarrow> state_ptr h1 = Some (last rs)"
    using started_and_checked.IH(1) [OF wf0] by simp_all
  have "rs = []"
    using callback_unchanged_state [OF c(1,2,4,3), of s] started_and_checked.prems(3)
      started_and_checked.hyps(2) by simp
  then have h1: "h1 = ?h0" using c(3) by simp
  have d: "grows ?h0 rs' h2" "set rs' \<inter> allocated ?h0 = {}" "rs' = [] \<longrightarrow> h2 = ?h0"
     "rs' \<noteq> [] \<longrightarrow> state_ptr h2 = Some (last rs') \<and>
        retired h2 = retired ?h0 \<union> set_option (state_ptr ?h0) \<union> (set rs' - {last rs'})"
    using started_and_checked.IH(2) wf0 h1 by simp_all
  have g: "grows h (rs @ rs') h2" using d(1) \<open>rs = []\<close> by (auto simp: grows_def)
  show ?case
  proof (cases "rs' = []")
    case True
    then show ?thesis using g d(3) \<open>rs = []\<close> started_and_checked.prems(2) by simp
  next
    case False
    then have "last rs' \<in> set rs'" by simp
    then have "last rs' \<noteq> s" using d(2) started_and_checked.prems(3) by auto
    then show ?thesis using g d(2,4) False \<open>rs = []\<close> by auto
  qed
next
  case (started_and_replaced s h old rs h1)
  let ?h0 = "h\<lparr>old_states := old_states h @ [old], state_ptr := Some s\<rparr>"
  have wf0: "well_formed ?h0"
    using well_formed_install [of h s] started_and_replaced.prems by simp
  have c: "grows ?h0 rs h1" "set rs \<inter> allocated ?h0 = {}" "rs = [] \<longrightarrow> h1 = ?h0"
     "rs \<noteq> [] \<longrightarrow> state_ptr h1 = Some (last rs) \<and>
        retired h1 = retired ?h0 \<union> set_option (state_ptr ?h0) \<union> (set rs - {last rs})"
    using started_and_replaced.IH [OF wf0] by simp_all
  have rsne: "rs \<noteq> []" using c(3) started_and_replaced.hyps(2) by auto
  then have "last rs \<in> set rs" by simp
  then have "last rs \<noteq> s" using c(2) started_and_replaced.prems(3) by auto
  moreover have "grows h rs h1" using c(1) by (auto simp: grows_def)
  ultimately show ?case using c(2,4) rsne by auto
qed

lemma delete_all_distinct:
  "distinct (filter (\<lambda>p. p \<noteq> None) ps) \<Longrightarrow> {p. Some p \<in> set ps} \<subseteq> A \<Longrightarrow>
   delete_all ps A = Some (A - {p. Some p \<in> set ps})"
proof (induction ps A rule: delete_all.induct)
  case (1 A)
  then show ?case by simp
next
  case (2 ps A)
  then show ?case by simp
next
  case (3 p ps A)
  have pA: "p \<in> A" using "3.prems"(2) by auto
  have "delete_all ps (A - {p}) = Some (A - {p} - {q. Some q \<in> set ps})"
    using 3 by (intro "3.IH") auto
  moreover have "A - {p} - {q. Some q \<in> set ps} = A - {q. Some q \<in> set (Some p # ps)}" by auto
  ultimately show ?case using pA by simp
qed

lemma flush_well_formed:
  assumes "well_formed h"
  shows "flush_old_states h = Some (h\<lparr>old_states := [], allocated := allocated h - retired h\<rparr>)"
  using assms delete_all_distinct [of "old_states h" "allocated h"]
  by (simp add: flush_old_states_def well_formed_def retired_def)

lemma callback_sound:
  assumes "callback h rs h1" and "well_formed h" and "state_ptr h = Some s0"
  shows "well_formed h1" and "state_ptr h1 = Some (last (s0 # rs))"
    and "allocated h1 = allocated h \<union> set rs"
    and "\<exists>ys. old_states h1 = old_states h @ ys"
    and "retired h1 = retired h \<union> (set (s0 # rs) - {last (s0 # rs)})"
proof -
  have c: "grows h rs h1" "set rs \<inter> allocated h = {}" "rs = [] \<longrightarrow> h1 = h"
     "rs \<noteq> [] \<longrightarrow> state_ptr h1 = Some (last rs) \<and>
        retired h1 = retired h \<union> set_option (state_ptr h) \<union> (set rs - {last rs})"
    using transitions_sound(3) [OF assms(1,2)] by simp_all
  show "well_formed h1" "allocated h1 = allocated h \<union> set rs" "\<exists>ys. old_states h1 = old_states h @ ys"
    using c(1) by (simp_all add: grows_def)
  show "state_ptr h1 = Some (last (s0 # rs))" using c(3,4) assms(3) by auto
  have s0: "s0 \<in> allocated h" using assms(2,3) by (auto simp: well_formed_def)
  show "retired h1 = retired h \<union> (set (s0 # rs) - {last (s0 # rs)})"
  proof (cases "rs = []")
    case True
    then show ?thesis using c(3) by simp
  next
    case False
    then have "last rs \<in> set rs" by simp
    then have "last rs \<noteq> s0" using c(2) s0 by auto
    then show ?thesis using c(4) False assms(3) by auto
  qed
qed

lemma callback_append:
  assumes "callback h rs h1" and "callback h1 rs' h2"
  shows "callback h (rs @ rs') h2"
proof -
  have "callback h rs h1 \<Longrightarrow> (\<forall>h2. callback h1 rs' h2 \<longrightarrow> callback h (rs @ rs') h2)"
  proof (induction rule: Hero_set_state_start_new_state_callback.inducts(3)
      [where ?P1.0 = "\<lambda>_ _ _ _. True" and ?P2.0 = "\<lambda>_ _ _ _ _. True"])
    case (callback_calls s h rs ha rs0 hb)
    show ?case
    proof (intro allI impI)
      fix h2 assume "callback hb rs' h2"
      then have x: "callback ha (rs0 @ rs') h2" using callback_calls by blast
      have "callback h (rs @ (rs0 @ rs')) h2"
        by (rule Hero_set_state_start_new_state_callback.callback_calls [OF callback_calls.hyps(1,2) x])
      then show "callback h ((rs @ rs0) @ rs') h2" by simp
    qed
  qed auto
  then show ?thesis using assms by blast
qed

lemma last_Cons_append: "last (last (s # xs) # ys) = last (s # xs @ ys)"
proof (cases "ys = []")
  case True
  then show ?thesis by simp
next
  case False
  have "last (s # xs @ ys) = last ((s # xs) @ ys)" by simp
  also have "\<dots> = last ys" using False by (simp only: last_append if_False)
  finally show ?thesis using False by simp
qed

lemma flushed_well_formed:
  assumes "well_formed h" and "state_ptr h = Some s"
  shows "well_formed (h\<lparr>old_states := [], allocated := allocated h - retired h\<rparr>)"
    and "retired (h\<lparr>old_states := [], allocated := allocated h - retired h\<rparr>) = {}"
  using assms by (auto simp: well_formed_def retired_def)

lemma hero_tick_sound:
  assumes wf: "well_formed h" and st: "state_ptr h = Some s0"
    and up: "Hero_update h is_susp rs1 rs2 rs3 r"
  shows "\<exists>hu hf he. r = Some he \<and> callback h (rs1 @ rs2) hu \<and> flush_old_states hu = Some hf \<and>
      state_ptr hu = Some (last (s0 # rs1 @ rs2)) \<and>
      allocated hu = allocated h \<union> set (rs1 @ rs2) \<and>
      (\<exists>ys. old_states hu = old_states h @ ys) \<and>
      distinct (filter (\<lambda>p. p \<noteq> None) (old_states hu)) \<and>
      retired hu = retired h \<union> (set (s0 # rs1 @ rs2) - {last (s0 # rs1 @ rs2)}) \<and>
      state_ptr hf = state_ptr hu \<and> old_states hf = [] \<and>
      allocated hf = allocated hu - retired hu \<and>
      well_formed he \<and> state_ptr he = Some (last (s0 # rs1 @ rs2 @ rs3)) \<and>
      allocated he = allocated hf \<union> set rs3 \<and>
      retired he = set (last (s0 # rs1 @ rs2) # rs3) - {last (s0 # rs1 @ rs2 @ rs3)} \<and>
      retired he \<subseteq> allocated he \<and>
      last (s0 # rs1 @ rs2 @ rs3) \<in> allocated he - retired he"
proof -
  obtain h1 r2 where c1: "callback h rs1 h1" and u: "Hero_update_state h1 rs2 r2"
    and rest: "case r2 of None \<Rightarrow> r = None
         | Some h2 \<Rightarrow> if is_susp then rs3 = [] \<and> r = Some h2
                       else (\<exists>h3. callback h2 rs3 h3 \<and> r = Some h3)"
    using up by (auto simp: Hero_update_def)
  obtain hu where c2: "callback h1 rs2 hu" and r2: "r2 = flush_old_states hu"
    using u by (auto simp: Hero_update_state_def)
  have c: "callback h (rs1 @ rs2) hu" using c1 c2 by (rule callback_append)
  note cs = callback_sound [OF c wf st]
  let ?hf = "hu\<lparr>old_states := [], allocated := allocated hu - retired hu\<rparr>"
  let ?sl = "last (s0 # rs1 @ rs2)"
  have f: "flush_old_states hu = Some ?hf" using cs(1) by (rule flush_well_formed)
  have wff: "well_formed ?hf" "retired ?hf = {}"
    using flushed_well_formed [OF cs(1,2)] by simp_all
  have stf: "state_ptr ?hf = Some ?sl" using cs(2) by simp
  have dist: "distinct (filter (\<lambda>p. p \<noteq> None) (old_states hu))"
    using cs(1) by (simp add: well_formed_def)
  have "\<exists>he. r = Some he \<and> well_formed he \<and> state_ptr he = Some (last (s0 # rs1 @ rs2 @ rs3)) \<and>
      allocated he = allocated ?hf \<union> set rs3 \<and>
      retired he = set (?sl # rs3) - {last (s0 # rs1 @ rs2 @ rs3)}"
  proof (cases is_susp)
    case True
    then have "rs3 = []" "r = Some ?hf" using rest r2 f by simp_all
    then show ?thesis using wff stf by simp
  next
    case False
    then obtain he where c3: "callback ?hf rs3 he" and r: "r = Some he"
      using rest r2 f by auto
    note ce = callback_sound [OF c3 wff(1) stf]
    show ?thesis using r ce wff(2) by (simp add: last_Cons_append)
  qed
  then obtain he where he: "r = Some he" "well_formed he"
      "state_ptr he = Some (last (s0 # rs1 @ rs2 @ rs3))"
      "allocated he = allocated ?hf \<union> set rs3"
      "retired he = set (?sl # rs3) - {last (s0 # rs1 @ rs2 @ rs3)}" by blast
  have sub: "retired he \<subseteq> allocated he" "last (s0 # rs1 @ rs2 @ rs3) \<in> allocated he - retired he"
    using he(2,3) by (auto simp: well_formed_def)
  show ?thesis
    using he sub c f cs dist stf
    by (intro exI [of _ hu] exI [of _ ?hf] exI [of _ he]) simp
qed

text \<open>
  C1. Let the hero own a well-formed set of states with an active state \<open>s0\<close>, some of
  them possibly waiting in \<open>old_states\<close>, and let a tick of \<open>Hero::update\<close> terminate after
  the states \<open>rs1\<close>, \<open>rs2\<close> and \<open>rs3\<close> were asked for in its three stretches, re-entrant
  calls from \<open>stop\<close> and \<open>start\<close> included. Then the tick returns normally. Before the
  deletions of \<open>update_state\<close> the active state is the last one asked for so far (\<open>s0\<close>
  when there was no call) and the pointer is not null; no state object was destroyed
  during the calls (the objects are the former ones plus the new ones); the pointers of
  \<open>old_states\<close> were only appended to, without repetition, and the states retired are those
  that waited already plus the states that were active before the last one. The deletions
  then succeed, which they do not when an object is deleted twice, empty the list, destroy
  exactly the retired objects and leave the active one. At the end of the tick the owner
  is well formed again, the active state is the last one asked for in the whole tick, and
  the states still waiting in \<open>old_states\<close> are exactly those that were active after the
  deletions and were replaced since: they exist until the deletions of a later tick, to
  which the same statement applies. The second part says the same of a single \<open>set_state\<close>,
  the constructor's first call with a null state included.
\<close>

theorem hero_tick_transitions:
  "(well_formed h \<and> state_ptr h = Some s0 \<and> Hero_update h is_susp rs1 rs2 rs3 r \<longrightarrow>
      (\<exists>hu hf he. r = Some he \<and> callback h (rs1 @ rs2) hu \<and> flush_old_states hu = Some hf \<and>
         state_ptr hu = Some (last (s0 # rs1 @ rs2)) \<and>
         allocated hu = allocated h \<union> set (rs1 @ rs2) \<and>
         (\<exists>ys. old_states hu = old_states h @ ys) \<and>
         distinct (filter (\<lambda>p. p \<noteq> None) (old_states hu)) \<and>
         retired hu = retired h \<union> (set (s0 # rs1 @ rs2) - {last (s0 # rs1 @ rs2)}) \<and>
         state_ptr hf = state_ptr hu \<and> old_states hf = [] \<and>
         allocated hf = allocated hu - retired hu \<and>
         well_formed he \<and> state_ptr he = Some (last (s0 # rs1 @ rs2 @ rs3)) \<and>
         allocated he = allocated hf \<union> set rs3 \<and>
         retired he = set (last (s0 # rs1 @ rs2) # rs3) - {last (s0 # rs1 @ rs2 @ rs3)} \<and>
         retired he \<subseteq> allocated he \<and>
         last (s0 # rs1 @ rs2 @ rs3) \<in> allocated he - retired he)) \<and>
   (well_formed g \<and> s \<in> allocated g \<and> s \<notin> retired g \<and> state_ptr g \<noteq> Some s \<and>
    Hero_set_state g s ts g' \<longrightarrow>
      state_ptr g' = Some (last ts) \<and> well_formed g' \<and> allocated g' = allocated g \<union> set ts \<and>
      (\<exists>ys. old_states g' = old_states g @ ys) \<and>
      retired g' = retired g \<union> set_option (state_ptr g) \<union> (set ts - {last ts}))"
proof (intro conjI impI)
  assume "well_formed h \<and> state_ptr h = Some s0 \<and> Hero_update h is_susp rs1 rs2 rs3 r"
  then show "\<exists>hu hf he. r = Some he \<and> callback h (rs1 @ rs2) hu \<and> flush_old_states hu = Some hf \<and>
         state_ptr hu = Some (last (s0 # rs1 @ rs2)) \<and>
         allocated hu = allocated h \<union> set (rs1 @ rs2) \<and>
         (\<exists>ys. old_states hu = old_states h @ ys) \<and>
         distinct (filter (\<lambda>p. p \<noteq> None) (old_states hu)) \<and>
         retired hu = retired h \<union> (set (s0 # rs1 @ rs2) - {last (s0 # rs1 @ rs2)}) \<and>
         state_ptr hf = state_ptr hu \<and> old_states hf = [] \<and>
         allocated hf = allocated hu - retired hu \<and>
         well_formed he \<and> state_ptr he = Some (last (s0 # rs1 @ rs2 @ rs3)) \<and>
         allocated he = allocated hf \<union> set rs3 \<and>
         retired he = set (last (s0 # rs1 @ rs2) # rs3) - {last (s0 # rs1 @ rs2 @ rs3)} \<and>
         retired he \<subseteq> allocated he \<and>
         last (s0 # rs1 @ rs2 @ rs3) \<in> allocated he - retired he"
    using hero_tick_sound [of h s0 is_susp rs1 rs2 rs3 r] by blast
next
  assume b: "well_formed g \<and> s \<in> allocated g \<and> s \<notin> retired g \<and> state_ptr g \<noteq> Some s \<and>
    Hero_set_state g s ts g'"
  then have "grows g ts g' \<and> (set ts - {s}) \<inter> allocated g = {} \<and> s \<in> set ts \<and>
           state_ptr g' = Some (last ts) \<and>
           retired g' = retired g \<union> set_option (state_ptr g) \<union> (set ts - {last ts})"
    using transitions_sound(1) [of g s ts g'] by blast
  then show "state_ptr g' = Some (last ts)" "well_formed g'" "allocated g' = allocated g \<union> set ts"
      "\<exists>ys. old_states g' = old_states g @ ys"
      "retired g' = retired g \<union> set_option (state_ptr g) \<union> (set ts - {last ts})"
    by (simp_all add: grows_def)
qed

lemma plain_set_state:
  "Hero_set_state (owning (Some old) olds A) s [s] (owning (Some s) (olds @ [Some old]) A)"
proof -
  let ?h = "owning (Some old) olds A"
  let ?h' = "owning (Some s) (olds @ [Some old]) A"
  have i: "?h\<lparr>old_states := old_states ?h @ [Some old], state_ptr := Some s\<rparr> = ?h'"
    by (simp add: owning_def)
  have "start_new_state ?h (Some old) s ([] @ []) ?h'"
    by (rule started_and_checked [where ?h1.0 = ?h']) (simp_all add: i callback_returns, simp add: owning_def)
  then have "Hero_set_state ?h s (s # [] @ []) ?h'"
    by (intro old_state_stopped [where ?h1.0 = ?h and old = old]) (simp_all add: callback_returns owning_def)
  then show ?thesis by simp
qed

lemma constructor_set_state:
  "Hero_set_state (owning None [] {0}) 0 [0] (owning (Some 0) [None] {0})"
proof -
  let ?h = "owning None [] {0}"
  let ?h' = "owning (Some 0) [None] {0}"
  have i: "?h\<lparr>old_states := old_states ?h @ [None], state_ptr := Some 0\<rparr> = ?h'"
    by (simp add: owning_def)
  have "start_new_state ?h None 0 ([] @ []) ?h'"
    by (rule started_and_checked [where ?h1.0 = ?h']) (simp_all add: i callback_returns, simp add: owning_def)
  then show ?thesis
    using first_state [where h = ?h and s = 0 and rs = "[]" and h' = ?h'] by (simp add: owning_def)
qed

lemma one_call:
  assumes "s \<notin> A" 
  shows "callback (owning (Some old) olds A) [s] (owning (Some s) (olds @ [Some old]) (insert s A))"
proof -
  have "Hero_set_state ((owning (Some old) olds A)\<lparr>allocated := insert s (allocated (owning (Some old) olds A))\<rparr>)
          s [s] (owning (Some s) (olds @ [Some old]) (insert s A))"
    using plain_set_state [of old olds "insert s A" s] by (simp add: owning_def)
  then have "callback (owning (Some old) olds A) ([s] @ []) (owning (Some s) (olds @ [Some old]) (insert s A))"
    using assms by (intro callback_calls [where ?h1.0 = "owning (Some s) (olds @ [Some old]) (insert s A)"])
      (simp_all add: callback_returns, simp add: owning_def)
  then show ?thesis by simp
qed

lemma reentrant_tick:
  "callback (owning (Some 0) [] {0}) [1, 2, 1, 3] (owning (Some 3) [Some 0, Some 2, Some 1] {0, 1, 2, 3})"
proof -
  let ?hA = "owning (Some 0) [] {0, 1}"
  let ?hB = "owning (Some 2) [Some 0] {0, 1, 2}"
  let ?hC = "owning (Some 1) [Some 0, Some 2] {0, 1, 2}"
  let ?hF = "owning (Some 3) [Some 0, Some 2, Some 1] {0, 1, 2, 3}"
  have stop0: "callback ?hA [2] ?hB"
    using one_call [of 2 "{0, 1}" 0 "[]"] by (simp add: insert_commute)
  have start1: "callback ?hC [3] ?hF"
    using one_call [of 3 "{0, 1, 2}" 1 "[Some 0, Some 2]"] by (simp add: insert_commute)
  have "start_new_state ?hB (Some 2) 1 [3] ?hF"
    using started_and_replaced [where h = ?hB and old = "Some 2" and s = 1 and rs = "[3]" and ?h1.0 = ?hF] start1
    by (simp add: owning_def)
  then have "Hero_set_state ?hB 1 (1 # [] @ [3]) ?hF"
    by (intro old_state_stopped [where ?h1.0 = ?hB and old = 2]) (simp_all add: callback_returns owning_def)
  then have "Hero_set_state ?hA 1 (1 # [2] @ [1, 3]) ?hF"
    using stop0 by (intro new_state_forced [where ?h1.0 = ?hB and old = 0]) (simp_all add: owning_def)
  then have "callback (owning (Some 0) [] {0}) ([1, 2, 1, 3] @ []) ?hF"
    by (intro callback_calls [where s = 1 and ?h1.0 = ?hF]) (simp_all add: callback_returns owning_def insert_commute)
  then show ?thesis by simp
qed

lemma flush_owning:
  "flush_old_states (owning (Some 3) [Some 0, Some 2, Some 1] {0, 1, 2, 3}) = Some (owning (Some 3) [] {3})"
  "flush_old_states (owning (Some 0) [] {0}) = Some (owning (Some 0) [] {0})"
  "flush_old_states (owning (Some 4) [Some 3] {3, 4}) = Some (owning (Some 4) [] {4})"
  by (auto simp: flush_old_states_def owning_def)

lemma Hero_update_running:
  assumes "callback h rs1 h1" and "Hero_update_state h1 rs2 (Some h2)" and "callback h2 rs3 h3"
  shows "Hero_update h False rs1 rs2 rs3 (Some h3)"
  unfolding Hero_update_def
  by (rule exI [of _ h1], rule exI [of _ "Some h2"]) (use assms in auto)

lemma late_tick:
  "Hero_update (owning (Some 0) [] {0}) False [] [] [1] (Some (owning (Some 1) [Some 0] {0, 1}))"
proof -
  have "Hero_update_state (owning (Some 0) [] {0}) [] (Some (owning (Some 0) [] {0}))"
    using callback_returns [of "owning (Some 0) [] {0}"] flush_owning(2)
    by (auto simp: Hero_update_state_def)
  moreover have "callback (owning (Some 0) [] {0}) [1] (owning (Some 1) [Some 0] {0, 1})"
    using one_call [of 1 "{0}" 0 "[]"] by (simp add: insert_commute)
  ultimately show ?thesis
    using Hero_update_running [OF callback_returns [of "owning (Some 0) [] {0}"]] by blast
qed

text \<open>
  A state retired after the deletions outlives its tick. The hero is over a hole, 10
  pixels from the last solid ground, when the ground pipeline runs: it asks for the
  \<open>falling\<close> state. In the tick nothing else asks for a state, so \<open>update_state\<close> deletes
  nothing, the pipeline then replaces state 0 by state 1, and when \<open>Hero::update\<close> returns
  state 0 is still in \<open>old_states\<close> and still exists.
\<close>

theorem late_transition_counterexample:
  "map_option (\<lambda>h. state_name (state h))
     (Hero_update_ground_effects (sample_env (\<lambda>l r h. False)) 1000 (hole_hero 110)) = Some ''falling'' \<and>
   Hero_update (owning (Some 0) [] {0}) False [] [] [1] (Some (owning (Some 1) [Some 0] {0, 1})) \<and>
   old_states (owning (Some 1) [Some 0] {0, 1}) = [Some 0] \<and>
   0 \<in> allocated (owning (Some 1) [Some 0] {0, 1})"
proof -
  have "map_option (\<lambda>h. state_name (state h))
     (Hero_update_ground_effects (sample_env (\<lambda>l r h. False)) 1000 (hole_hero 110)) = Some ''falling''"
    by (simp add: hole_hero_def sample_hero_def sample_box_def sample_env_def sample_state_def
        get_distance_def get_x_def get_y_def floor_sqrt_def sqrt_up.simps Hero_update_ground_effects_def
        Hero_is_ground_visible_def Hero_set_walking_speed_def)
  then show ?thesis using late_tick by (simp add: owning_def)
qed

text \<open>
  A tick in which the active state's update goes through the re-entrant transitions 1, 2,
  1, 3 and the ground pipeline then asks for state 4: states 0, 2 and 1 are deleted in the
  tick, state 3 waits, and the next tick deletes it.
\<close>

theorem hero_tick_transitions_witness:
  "well_formed (owning (Some 0) [] {0}) \<and>
   Hero_update (owning (Some 0) [] {0}) False [] [1, 2, 1, 3] [4] (Some (owning (Some 4) [Some 3] {3, 4})) \<and>
   well_formed (owning (Some 4) [Some 3] {3, 4}) \<and>
   Hero_update (owning (Some 4) [Some 3] {3, 4}) False [] [] [] (Some (owning (Some 4) [] {4})) \<and>
   Hero_set_state (owning None [] {0}) 0 [0] (owning (Some 0) [None] {0}) \<and>
   well_formed (owning (Some 0) [None] {0})"
proof -
  have wf: "well_formed (owning (Some 0) [] {0})" "well_formed (owning None [] {0})"
    by (simp_all add: well_formed_def owning_def retired_def)
  have us: "Hero_update_state (owning (Some 0) [] {0}) [1, 2, 1, 3] (Some (owning (Some 3) [] {3}))"
    using reentrant_tick flush_owning(1) by (auto simp: Hero_update_state_def)
  have late: "callback (owning (Some 3) [] {3}) [4] (owning (Some 4) [Some 3] {3, 4})"
    using one_call [of 4 "{3}" 3 "[]"] by (simp add: insert_commute)
  have t1: "Hero_update (owning (Some 0) [] {0}) False [] [1, 2, 1, 3] [4] (Some (owning (Some 4) [Some 3] {3, 4}))"
    using Hero_update_running [OF callback_returns [of "owning (Some 0) [] {0}"] us late] .
  have "Hero_update_state (owning (Some 4) [Some 3] {3, 4}) [] (Some (owning (Some 4) [] {4}))"
    using callback_returns [of "owning (Some 4) [Some 3] {3, 4}"] flush_owning(3)
    by (auto simp: Hero_update_state_def)
  then have t2: "Hero_update (owning (Some 4) [Some 3] {3, 4}) False [] [] [] (Some (owning (Some 4) [] {4}))"
    using Hero_update_running [OF callback_returns [of "owning (Some 4) [Some 3] {3, 4}"] _
        callback_returns [of "owning (Some 4) [] {4}"]] by blast
  have "well_formed (owning (Some 4) [Some 3] {3, 4}) \<and> well_formed (owning (Some 0) [None] {0})"
    using hero_tick_transitions [of "owning (Some 0) [] {0}" 0 False "[]" "[1, 2, 1, 3]" "[4]"
        "Some (owning (Some 4) [Some 3] {3, 4})" "owning None [] {0}" 0 "[0]" "owning (Some 0) [None] {0}"]
      wf t1 constructor_set_state
    by (auto simp: owning_def retired_def)
  then show ?thesis using wf t1 t2 constructor_set_state by simp
qed

end
